theory Spec2Isabelle
  imports Complex_Main "HOL-Library.Char_ord" "HOL-Library.List_Lexorder"
begin

section \<open>Python values as they come out of \<^verbatim>\<open>json.load\<close>\<close>

text \<open>
  Every script of the pipeline exchanges icon records as JSON documents. A value read by
  \<^verbatim>\<open>json.load\<close> is null, a boolean, a number, a string, a list or a dictionary.
  A number is a Python \<^verbatim>\<open>int\<close> (\<open>JInt\<close>) or a \<^verbatim>\<open>float\<close> (\<open>JNum\<close>, a
  finite one, taken as a real): the scripts test numbers for zero, compare them and pass
  them on. A string is well-formed text. A dictionary keeps its insertion order, so it is
  an association list read through \<open>map_of\<close>.
\<close>

datatype json =
    JNull
  | JBool bool
  | JInt int
  | JNum real
  | JStr string
  | JList "json list"
  | JDict "(string \<times> json) list"

type_synonym dict = "(string \<times> json) list"

text \<open>The exceptions the modelled code can raise.\<close>

datatype exn =
    KeyError string
  | TypeError
  | AttributeError
  | BindingError
  | IntegrityError
  | VectorError
  | BrokenPipe
  | OverflowError
  | UnicodeEncodeError

text \<open>Applying a function to the value of a call that did not raise.\<close>

definition on_result :: "('a \<Rightarrow> 'b) \<Rightarrow> exn + 'a \<Rightarrow> exn + 'b" where
  "on_result f r = (case r of Inl e \<Rightarrow> Inl e | Inr v \<Rightarrow> Inr (f v))"

text \<open>Truth value of an object in a condition (\<^verbatim>\<open>if x\<close>, \<^verbatim>\<open>not x\<close>).\<close>

fun truthy :: "json \<Rightarrow> bool" where
  "truthy JNull = False"
| "truthy (JBool b) = b"
| "truthy (JInt i) = (i \<noteq> 0)"
| "truthy (JNum x) = (x \<noteq> 0)"
| "truthy (JStr s) = (s \<noteq> [])"
| "truthy (JList xs) = (xs \<noteq> [])"
| "truthy (JDict kvs) = (kvs \<noteq> [])"

text \<open>\<^verbatim>\<open>d.get(k, default)\<close> and \<^verbatim>\<open>d[k]\<close>.\<close>

definition dict_get :: "dict \<Rightarrow> string \<Rightarrow> json \<Rightarrow> json" where
  "dict_get d k dflt = (case map_of d k of None \<Rightarrow> dflt | Some v \<Rightarrow> v)"

definition dict_item :: "dict \<Rightarrow> string \<Rightarrow> exn + json" where
  "dict_item d k = (case map_of d k of None \<Rightarrow> Inl (KeyError k) | Some v \<Rightarrow> Inr v)"

text \<open>\<^verbatim>\<open>len(x)\<close>: defined on strings, lists and dictionaries, a TypeError elsewhere.\<close>

fun py_len :: "json \<Rightarrow> exn + nat" where
  "py_len (JStr s) = Inr (length s)"
| "py_len (JList xs) = Inr (length xs)"
| "py_len (JDict kvs) = Inr (length kvs)"
| "py_len JNull = Inl TypeError"
| "py_len (JBool b) = Inl TypeError"
| "py_len (JInt i) = Inl TypeError"
| "py_len (JNum x) = Inl TypeError"

fun is_list :: "json \<Rightarrow> bool" where
  "is_list (JList xs) = True"
| "is_list v = False"

text \<open>
  Membership in a Python \<^verbatim>\<open>set\<close> goes through hashing and equality: lists and
  dictionaries are unhashable (TypeError), \<^verbatim>\<open>True == 1\<close>, \<^verbatim>\<open>False == 0\<close>, and
  an \<^verbatim>\<open>int\<close> equals the \<^verbatim>\<open>float\<close> of the same value.
\<close>

datatype hkey = HNone | HNum real | HStr string

fun hash_key :: "json \<Rightarrow> exn + hkey" where
  "hash_key JNull = Inr HNone"
| "hash_key (JBool b) = Inr (HNum (if b then 1 else 0))"
| "hash_key (JInt i) = Inr (HNum (real_of_int i))"
| "hash_key (JNum x) = Inr (HNum x)"
| "hash_key (JStr s) = Inr (HStr s)"
| "hash_key (JList xs) = Inl TypeError"
| "hash_key (JDict kvs) = Inl TypeError"

section \<open>combine\_runs.py: the run merger\<close>

subsection \<open>deduplicate\_icons\<close>

text \<open>
  The loop keeps \<^verbatim>\<open>seen_names\<close>, the list \<^verbatim>\<open>deduplicated\<close> and
  \<^verbatim>\<open>duplicates_count\<close>. The console lines it prints are not part of the state.
\<close>

record dedup_state =
  seen_names :: "hkey set"
  deduplicated :: "dict list"
  duplicates_count :: nat

definition name_of :: "dict \<Rightarrow> json" where
  "name_of icon = dict_get icon ''name'' (JStr '''')"

fun deduplicate_loop :: "dedup_state \<Rightarrow> dict list \<Rightarrow> exn + dedup_state" where
  "deduplicate_loop st [] = Inr st"
| "deduplicate_loop st (icon # rest) =
    (let name = name_of icon in
     if \<not> truthy name then
       deduplicate_loop (st\<lparr>duplicates_count := duplicates_count st + 1\<rparr>) rest
     else
       (case hash_key name of
          Inl e \<Rightarrow> Inl e
        | Inr k \<Rightarrow>
            if k \<notin> seen_names st then
              deduplicate_loop
                (st\<lparr>seen_names := insert k (seen_names st),
                    deduplicated := deduplicated st @ [icon]\<rparr>) rest
            else
              deduplicate_loop (st\<lparr>duplicates_count := duplicates_count st + 1\<rparr>) rest))"

definition dedup_init :: dedup_state where
  "dedup_init = \<lparr>seen_names = {}, deduplicated = [], duplicates_count = 0\<rparr>"

definition deduplicate_run :: "dict list \<Rightarrow> exn + dedup_state" where
  "deduplicate_run all_icons = deduplicate_loop dedup_init all_icons"

definition deduplicate_icons :: "dict list \<Rightarrow> exn + dict list" where
  "deduplicate_icons all_icons =
     (case deduplicate_run all_icons of Inl e \<Rightarrow> Inl e | Inr st \<Rightarrow> Inr (deduplicated st))"

text \<open>A record carries the name with key \<open>k\<close>: its name is truthy and hashes to \<open>k\<close>.\<close>

definition has_key :: "hkey \<Rightarrow> dict \<Rightarrow> bool" where
  "has_key k icon = (truthy (name_of icon) \<and> hash_key (name_of icon) = Inr k)"

definition nameless :: "dict \<Rightarrow> bool" where
  "nameless icon = (\<not> truthy (name_of icon))"

subsection \<open>validate\_icon\_data\<close>

definition required_fields :: "string list" where
  "required_fields = [''name'', ''description'', ''embedding'', ''local_path'']"

definition field_missing :: "dict \<Rightarrow> string \<Rightarrow> bool" where
  "field_missing icon field =
     (case map_of icon field of None \<Rightarrow> True | Some v \<Rightarrow> \<not> truthy v)"

definition missing_fields :: "dict \<Rightarrow> string list" where
  "missing_fields icon = filter (field_missing icon) required_fields"

definition validate_icon_data :: "dict \<Rightarrow> bool" where
  "validate_icon_data icon =
     (if missing_fields icon \<noteq> [] then False
      else
        (let embedding = dict_get icon ''embedding'' (JList []) in
         if \<not> is_list embedding \<or> py_len embedding = Inr 0 then False else True))"

subsection \<open>combine\_runs\<close>

text \<open>
  \<^verbatim>\<open>valid_icons.sort(key=lambda x: x.get('name', ''))\<close> compares the keys with
  \<^verbatim>\<open><\<close>: strings among themselves (by code point), numbers and booleans among
  themselves, and a comparison across the two kinds raises a TypeError. A list of at
  most one element is never compared. Keys of any other kind raise here as well;
  \<open>combine_runs\<close> never reaches the sort with one (lemma \<open>valid_names_scalar\<close>).
  The sort is stable, as \<open>sort_key\<close> is.
\<close>

fun is_str :: "json \<Rightarrow> bool" where
  "is_str (JStr s) = True"
| "is_str v = False"

fun is_number :: "json \<Rightarrow> bool" where
  "is_number (JNum x) = True"
| "is_number (JInt i) = True"
| "is_number (JBool b) = True"
| "is_number v = False"

fun str_of :: "json \<Rightarrow> string" where
  "str_of (JStr s) = s"
| "str_of v = []"

fun num_of :: "json \<Rightarrow> real" where
  "num_of (JNum x) = x"
| "num_of (JInt i) = real_of_int i"
| "num_of (JBool b) = (if b then 1 else 0)"
| "num_of v = 0"

definition sort_by_name :: "dict list \<Rightarrow> exn + dict list" where
  "sort_by_name ics =
     (if length ics \<le> 1 then Inr ics
      else if list_all (\<lambda>i. is_str (name_of i)) ics
        then Inr (sort_key (\<lambda>i. str_of (name_of i)) ics)
      else if list_all (\<lambda>i. is_number (name_of i)) ics
        then Inr (sort_key (\<lambda>i. num_of (name_of i)) ics)
      else Inl TypeError)"

text \<open>
  The document written to the output file; of its entries the icons, their count and the
  \<^verbatim>\<open>deduplication_stats\<close> are kept (the time stamp, the model names and the per-file
  statistics play no part below).
\<close>

record combined_data =
  processed_icons :: "dict list"
  total_count :: nat
  total_loaded :: nat
  after_dedup :: nat
  after_validation :: nat
  duplicates_removed :: nat
  invalid_removed :: nat

text \<open>
  \<open>runs\<close> holds, per input file in command-line order, the icons
  \<^verbatim>\<open>load_processed_file\<close> returned for it. \<open>None\<close> is the early return of the empty
  string: no file is written.
\<close>

definition combine_runs :: "dict list list \<Rightarrow> exn + combined_data option" where
  "combine_runs runs =
     (if runs = [] then Inr None
      else
        (let all_icons = concat runs in
         if all_icons = [] then Inr None
         else
           (case deduplicate_icons all_icons of
              Inl e \<Rightarrow> Inl e
            | Inr deduplicated_icons \<Rightarrow>
                (let valid_icons = filter validate_icon_data deduplicated_icons;
                     invalid_count =
                       length (filter (\<lambda>i. \<not> validate_icon_data i) deduplicated_icons)
                 in
                 if valid_icons = [] then Inr None
                 else
                   (case sort_by_name valid_icons of
                      Inl e \<Rightarrow> Inl e
                    | Inr sorted_icons \<Rightarrow>
                        Inr (Some
                          \<lparr>processed_icons = sorted_icons,
                           total_count = length sorted_icons,
                           total_loaded = length all_icons,
                           after_dedup = length deduplicated_icons,
                           after_validation = length sorted_icons,
                           duplicates_removed = length all_icons - length deduplicated_icons,
                           invalid_removed = invalid_count\<rparr>))))))"

section \<open>build\_db.py: the database assembler\<close>

subsection \<open>The tables of \<^verbatim>\<open>create_database\<close>\<close>

text \<open>
  A value held by a column or bound to a \<^verbatim>\<open>?\<close>: NULL, an integer, a real, a text, or
  the text \<^verbatim>\<open>json.dumps(v)\<close>, written \<open>SJson v\<close> (it is never the empty text, and
  it only ever reaches the embedding columns).
\<close>

datatype sqlval = SNull | SInt int | SReal real | SText string | SJson json

text \<open>
  What the assembler takes from outside the script: whether the console's encoding can
  print the text of a value (\<^verbatim>\<open>print\<close> raises a UnicodeEncodeError when it cannot),
  the text SQLite gives a real stored in a TEXT column, and what SQLite's INTEGER affinity
  makes of a value stored in an INTEGER column. The fixed messages of the script are taken
  to print.
\<close>

record environment =
  console :: "json \<Rightarrow> bool"
  real_text :: "real \<Rightarrow> string"
  integer_affinity :: "sqlval \<Rightarrow> sqlval"

text \<open>The decimal text of an integer, as SQLite stores an integer in a TEXT column.\<close>

function nat_text :: "nat \<Rightarrow> string" where
  "nat_text n =
     (if n < 10 then [''0123456789'' ! n]
      else nat_text (n div 10) @ [''0123456789'' ! (n mod 10)])"
  by pat_completeness auto
termination
  by (relation "measure id") auto

declare nat_text.simps [simp del]

definition int_text :: "int \<Rightarrow> string" where
  "int_text i = (if i < 0 then CHR ''-'' # nat_text (nat (- i)) else nat_text (nat i))"

text \<open>TEXT affinity: a number is stored as its text.\<close>

fun text_affinity :: "environment \<Rightarrow> sqlval \<Rightarrow> sqlval" where
  "text_affinity env (SInt i) = SText (int_text i)"
| "text_affinity env (SReal x) = SText (real_text env x)"
| "text_affinity env v = v"

text \<open>
  One row of the table \<^verbatim>\<open>icons\<close>, without \<^verbatim>\<open>created_at\<close> (filled by the engine
  from its clock).
\<close>

record icon_row =
  row_id :: nat
  name_col :: sqlval
  filename_col :: sqlval
  local_path_col :: sqlval
  description_col :: sqlval
  searchable_text_col :: sqlval
  width_col :: sqlval
  height_col :: sqlval
  embedding_col :: sqlval
  source_url_col :: sqlval
  alt_text_col :: sqlval
  parent_text_col :: sqlval

text \<open>
  The database file: the primary table, the \<^verbatim>\<open>vec0\<close> table
  \<^verbatim>\<open>icon_embeddings\<close> (row identifier and vector), the \<^verbatim>\<open>fts5\<close> table
  \<^verbatim>\<open>icons_fts\<close> (row identifier, name, description, searchable text), and the
  AUTOINCREMENT counter of \<^verbatim>\<open>icons\<close>: the largest row identifier handed out so far.
\<close>

record database =
  icons :: "icon_row list"
  icon_embeddings :: "(nat \<times> json) list"
  icons_fts :: "(nat \<times> sqlval \<times> sqlval \<times> sqlval) list"
  autoincrement :: nat

definition create_database :: database where
  "create_database = \<lparr>icons = [], icon_embeddings = [], icons_fts = [], autoincrement = 0\<rparr>"

subsection \<open>Binding parameters and executing the three INSERT statements\<close>

text \<open>
  A parameter of \<^verbatim>\<open>conn.execute\<close> is a Python object (\<open>Obj\<close>) or the string
  \<^verbatim>\<open>json.dumps(v)\<close> (\<open>Dumps\<close>). The \<^verbatim>\<open>sqlite3\<close> module binds None, integers
  (booleans as 0 and 1), floats and strings; it raises an OverflowError on an integer
  outside the 64 bits of an SQLite integer, and raises on a list or a dictionary.
\<close>

datatype param = Obj json | Dumps json

fun adapt :: "param \<Rightarrow> exn + sqlval" where
  "adapt (Dumps v) = Inr (SJson v)"
| "adapt (Obj JNull) = Inr SNull"
| "adapt (Obj (JBool b)) = Inr (SInt (if b then 1 else 0))"
| "adapt (Obj (JInt i)) =
     (if - (2 ^ 63) \<le> i \<and> i < 2 ^ 63 then Inr (SInt i) else Inl OverflowError)"
| "adapt (Obj (JNum x)) = Inr (SReal x)"
| "adapt (Obj (JStr s)) = Inr (SText s)"
| "adapt (Obj (JList xs)) = Inl BindingError"
| "adapt (Obj (JDict kvs)) = Inl BindingError"

text \<open>Sequencing of calls that may raise: the first exception ends the sequence.\<close>

definition then_do :: "exn + 'a \<Rightarrow> ('a \<Rightarrow> exn + 'b) \<Rightarrow> exn + 'b" where
  "then_do r f = (case r of Inl e \<Rightarrow> Inl e | Inr v \<Rightarrow> f v)"

fun adapt_all :: "param list \<Rightarrow> exn + sqlval list" where
  "adapt_all [] = Inr []"
| "adapt_all (p # ps) =
     then_do (adapt p) (\<lambda>v. then_do (adapt_all ps) (\<lambda>vs. Inr (v # vs)))"

text \<open>
  The row the eleven bound values make: every column of \<^verbatim>\<open>icons\<close> is declared TEXT
  but \<^verbatim>\<open>width\<close> and \<^verbatim>\<open>height\<close>, which are INTEGER.
\<close>

fun icon_row_of :: "environment \<Rightarrow> nat \<Rightarrow> sqlval list \<Rightarrow> icon_row option" where
  "icon_row_of env i [n, f, l, d, s, w, h, e, src, alt, par] =
     Some \<lparr>row_id = i, name_col = text_affinity env n, filename_col = text_affinity env f,
           local_path_col = text_affinity env l, description_col = text_affinity env d,
           searchable_text_col = text_affinity env s,
           width_col = integer_affinity env w, height_col = integer_affinity env h,
           embedding_col = text_affinity env e, source_url_col = text_affinity env src,
           alt_text_col = text_affinity env alt, parent_text_col = text_affinity env par\<rparr>"
| "icon_row_of env i vs = None"

text \<open>
  \<^verbatim>\<open>INSERT INTO icons (...) VALUES (?, ..., ?)\<close>: the eleven parameters are bound, the
  NOT NULL columns (name, filename, local\_path, description, searchable\_text) and the
  UNIQUE constraint on name are checked on the values as the columns store them, and the
  row gets the next row identifier, which is \<^verbatim>\<open>cursor.lastrowid\<close>. A statement that
  raises leaves the database as it was.
\<close>

definition sql_insert_icon ::
  "environment \<Rightarrow> database \<Rightarrow> param list \<Rightarrow> exn + database \<times> nat" where
  "sql_insert_icon env db params =
     then_do (adapt_all params) (\<lambda>vals.
       (case icon_row_of env (Suc (autoincrement db)) vals of
          None \<Rightarrow> Inl BindingError
        | Some row \<Rightarrow>
            if SNull \<in> {name_col row, filename_col row, local_path_col row,
                          description_col row, searchable_text_col row}
              then Inl IntegrityError
            else if name_col row \<in> set (map name_col (icons db)) then Inl IntegrityError
            else Inr (db\<lparr>icons := icons db @ [row], autoincrement := row_id row\<rparr>,
                      row_id row)))"

text \<open>
  \<^verbatim>\<open>INSERT INTO icon_embeddings (icon_id, embedding) VALUES (?, ?)\<close> with the JSON text
  of \<open>v\<close>: the \<^verbatim>\<open>vec0\<close> table was declared \<^verbatim>\<open>FLOAT[dims]\<close> and takes a JSON
  array of exactly \<open>dims\<close> numbers; \<^verbatim>\<open>icon_id\<close> is its primary key.
\<close>

fun is_float :: "json \<Rightarrow> bool" where
  "is_float (JNum x) = True"
| "is_float (JInt i) = True"
| "is_float v = False"

fun is_vector :: "int \<Rightarrow> json \<Rightarrow> bool" where
  "is_vector dims (JList xs) = (int (length xs) = dims \<and> list_all is_float xs)"
| "is_vector dims v = False"

definition sql_insert_embedding :: "int \<Rightarrow> database \<Rightarrow> nat \<Rightarrow> json \<Rightarrow> exn + database" where
  "sql_insert_embedding dims db icon_id v =
     (if \<not> is_vector dims v then Inl VectorError
      else if icon_id \<in> set (map fst (icon_embeddings db)) then Inl IntegrityError
      else Inr (db\<lparr>icon_embeddings := icon_embeddings db @ [(icon_id, v)]\<rparr>))"

text \<open>\<^verbatim>\<open>INSERT INTO icons_fts (rowid, name, description, searchable_text) VALUES (?, ?, ?, ?)\<close>.\<close>

definition sql_insert_fts :: "database \<Rightarrow> nat \<Rightarrow> param list \<Rightarrow> exn + database" where
  "sql_insert_fts db icon_id params =
     then_do (adapt_all params) (\<lambda>vals.
       (case vals of
          [n, d, s] \<Rightarrow>
            if icon_id \<in> set (map fst (icons_fts db)) then Inl IntegrityError
            else Inr (db\<lparr>icons_fts := icons_fts db @ [(icon_id, n, d, s)]\<rparr>)
        | _ \<Rightarrow> Inl BindingError))"

subsection \<open>insert\_icons\<close>

text \<open>
  The test on the embedding, written twice in the source: the value under
  \<^verbatim>\<open>embedding\<close> is truthy and its \<^verbatim>\<open>len\<close> equals
  \<^verbatim>\<open>self.embedding_dimensions\<close>. \<^verbatim>\<open>len\<close> raises on a truthy number or boolean.
\<close>

definition embedding_matches :: "int \<Rightarrow> dict \<Rightarrow> exn + bool" where
  "embedding_matches dims icon =
     (if \<not> truthy (dict_get icon ''embedding'' JNull) then Inr False
      else then_do (py_len (dict_get icon ''embedding'' (JList [])))
             (\<lambda>n. Inr (int n = dims)))"

definition embedding_valid :: "int \<Rightarrow> dict \<Rightarrow> bool" where
  "embedding_valid dims icon = (embedding_matches dims icon = Inr True)"

text \<open>
  The tuple of parameters of the first INSERT, its elements evaluated from left to right.
  \<^verbatim>\<open>source_data.get\<close> raises an AttributeError when \<^verbatim>\<open>source_data\<close> is not a
  dictionary.
\<close>

definition source_field :: "json \<Rightarrow> string \<Rightarrow> exn + json" where
  "source_field source_data k =
     (case source_data of JDict sd \<Rightarrow> Inr (dict_get sd k (JStr '''')) | _ \<Rightarrow> Inl AttributeError)"

definition icon_params :: "int \<Rightarrow> dict \<Rightarrow> exn + param list" where
  "icon_params dims icon =
     (let source_data = dict_get icon ''source_data'' (JDict []) in
      then_do (dict_item icon ''name'') (\<lambda>name.
      then_do (dict_item icon ''filename'') (\<lambda>filename.
      then_do (dict_item icon ''local_path'') (\<lambda>local_path.
      then_do (dict_item icon ''description'') (\<lambda>description.
      then_do (dict_item icon ''searchable_text'') (\<lambda>searchable_text.
      then_do (embedding_matches dims icon) (\<lambda>ok.
      then_do (source_field source_data ''src'') (\<lambda>src.
      then_do (source_field source_data ''alt'') (\<lambda>alt.
      then_do (source_field source_data ''parent_text'') (\<lambda>parent_text.
        Inr [Obj name, Obj filename, Obj local_path, Obj description, Obj searchable_text,
             Obj (dict_get icon ''width'' JNull), Obj (dict_get icon ''height'' JNull),
             (if ok then Dumps (dict_get icon ''embedding'' JNull) else Obj JNull),
             Obj src, Obj alt, Obj parent_text]))))))))))"

definition fts_params :: "dict \<Rightarrow> exn + param list" where
  "fts_params icon =
     then_do (dict_item icon ''name'') (\<lambda>name.
     then_do (dict_item icon ''description'') (\<lambda>description.
     then_do (dict_item icon ''searchable_text'') (\<lambda>searchable_text.
       Inr [Obj name, Obj description, Obj searchable_text])))"

text \<open>The size printed by the warning: \<^verbatim>\<open>len(embedding) if embedding else 0\<close>.\<close>

definition warned_size :: "dict \<Rightarrow> exn + nat" where
  "warned_size icon =
     (if truthy (dict_get icon ''embedding'' JNull)
      then py_len (dict_get icon ''embedding'' JNull) else Inr 0)"

text \<open>
  The warning printed for an embedding that is not taken: the icon's name and the size.
  Printing raises when the console cannot print the name.
\<close>

definition print_warning :: "environment \<Rightarrow> dict \<Rightarrow> exn + json \<times> nat" where
  "print_warning env icon =
     then_do (dict_item icon ''name'') (\<lambda>name.
     then_do (warned_size icon) (\<lambda>n.
       if console env name then Inr (name, n) else Inl UnicodeEncodeError))"

text \<open>
  The body of the \<^verbatim>\<open>try\<close> for one icon that is a dictionary. It returns the database
  as the statements executed so far have left it, and either the exception that ended the
  body or the warning it printed, if any.
\<close>

definition insert_fts_step ::
  "database \<Rightarrow> nat \<Rightarrow> dict \<Rightarrow> (json \<times> nat) option
     \<Rightarrow> database \<times> (exn + (json \<times> nat) option)" where
  "insert_fts_step db icon_id icon warning =
     (case then_do (fts_params icon) (sql_insert_fts db icon_id) of
        Inl e \<Rightarrow> (db, Inl e)
      | Inr db' \<Rightarrow> (db', Inr warning))"

definition try_insert_dict ::
  "environment \<Rightarrow> int \<Rightarrow> database \<Rightarrow> dict \<Rightarrow> database \<times> (exn + (json \<times> nat) option)" where
  "try_insert_dict env dims db icon =
     (case then_do (icon_params dims icon) (sql_insert_icon env db) of
        Inl e \<Rightarrow> (db, Inl e)
      | Inr (db1, icon_id) \<Rightarrow>
          (let embedding = dict_get icon ''embedding'' JNull in
           case embedding_matches dims icon of
             Inl e \<Rightarrow> (db1, Inl e)
           | Inr True \<Rightarrow>
               (case sql_insert_embedding dims db1 icon_id embedding of
                  Inl e \<Rightarrow> (db1, Inl e)
                | Inr db2 \<Rightarrow> insert_fts_step db2 icon_id icon None)
           | Inr False \<Rightarrow>
               (case print_warning env icon of
                  Inl e \<Rightarrow> (db1, Inl e)
                | Inr w \<Rightarrow> insert_fts_step db1 icon_id icon (Some w))))"

text \<open>
  The body of the \<^verbatim>\<open>try\<close> for any element of \<^verbatim>\<open>processed_icons\<close>: its first
  statement, \<^verbatim>\<open>icon.get('source_data', {})\<close>, raises an AttributeError on an element
  that is not a dictionary.
\<close>

fun try_insert ::
  "environment \<Rightarrow> int \<Rightarrow> database \<Rightarrow> json \<Rightarrow> database \<times> (exn + (json \<times> nat) option)" where
  "try_insert env dims db (JDict icon) = try_insert_dict env dims db icon"
| "try_insert env dims db v = (db, Inl AttributeError)"

text \<open>
  The \<^verbatim>\<open>except Exception\<close> handler prints
  \<^verbatim>\<open>icon.get('name', 'unknown')\<close> with the exception. It raises in its turn, an
  AttributeError on an element that is not a dictionary and a UnicodeEncodeError on a name
  the console cannot print; nothing catches that exception.
\<close>

fun handler_line :: "environment \<Rightarrow> json \<Rightarrow> exn + json" where
  "handler_line env (JDict icon) =
     (let name = dict_get icon ''name'' (JStr ''unknown'') in
      if console env name then Inr name else Inl UnicodeEncodeError)"
| "handler_line env v = Inl AttributeError"

text \<open>
  The state of the loop: the connection, the two counters, and what was printed: for
  every caught exception the name and the exception, for every skipped embedding the
  warning.
\<close>

record build_state =
  conn :: database
  inserted_count :: nat
  failed_count :: nat
  failures :: "(json \<times> exn) list"
  warnings :: "(json \<times> nat) list"

definition build_init :: "database \<Rightarrow> build_state" where
  "build_init db =
     \<lparr>conn = db, inserted_count = 0, failed_count = 0, failures = [], warnings = []\<rparr>"

text \<open>
  One iteration: the \<^verbatim>\<open>try\<close> body and the handler. \<open>Inl\<close> is an exception that
  leaves the handler and with it the loop.
\<close>

definition insert_step :: "environment \<Rightarrow> int \<Rightarrow> build_state \<Rightarrow> json \<Rightarrow> exn + build_state" where
  "insert_step env dims st icon =
     (case try_insert env dims (conn st) icon of
        (db, Inr warning) \<Rightarrow>
          Inr (st\<lparr>conn := db, inserted_count := inserted_count st + 1,
                  warnings := warnings st @ (case warning of None \<Rightarrow> [] | Some w \<Rightarrow> [w])\<rparr>)
      | (db, Inl e) \<Rightarrow>
          then_do (handler_line env icon) (\<lambda>name.
            Inr (st\<lparr>conn := db, failed_count := failed_count st + 1,
                    failures := failures st @ [(name, e)]\<rparr>)))"

fun insert_loop ::
  "environment \<Rightarrow> int \<Rightarrow> build_state \<Rightarrow> json list \<Rightarrow> exn + build_state" where
  "insert_loop env dims st [] = Inr st"
| "insert_loop env dims st (icon # rest) =
     then_do (insert_step env dims st icon) (\<lambda>st'. insert_loop env dims st' rest)"

text \<open>
  \<^verbatim>\<open>insert_icons\<close> on the elements of \<^verbatim>\<open>processed_icons\<close>. The final
  \<^verbatim>\<open>conn.commit()\<close> makes the state of the connection the content of the file; an
  exception that leaves the loop skips it, and \<^verbatim>\<open>build\<close> closes the connection
  with nothing of the run committed.
\<close>

definition insert_icons ::
  "environment \<Rightarrow> int \<Rightarrow> database \<Rightarrow> json list \<Rightarrow> exn + build_state" where
  "insert_icons env dims db icons_in =
     (if length icons_in = 0 then Inr (build_init db)
      else insert_loop env dims (build_init db) icons_in)"

text \<open>
  What holds of the database throughout the assembly: no table holds a row identifier
  beyond the AUTOINCREMENT counter, so the next identifier is new to all three tables.
\<close>

definition db_ok :: "database \<Rightarrow> bool" where
  "db_ok db \<longleftrightarrow>
     list_all (\<lambda>i. i \<le> autoincrement db) (map row_id (icons db)) \<and>
     list_all (\<lambda>i. i \<le> autoincrement db) (map fst (icon_embeddings db)) \<and>
     list_all (\<lambda>i. i \<le> autoincrement db) (map fst (icons_fts db))"

section \<open>process\_icons.py: the batch orchestrator\<close>

text \<open>
  Of an \<^verbatim>\<open>IconProcessor\<close> the two accumulated lists matter here: the processed
  records and the error records.
\<close>

record processor =
  processed_data :: "dict list"
  error_data :: "dict list"

subsection \<open>save\_processed\_data\<close>

text \<open>
  The two files of the output directory, each holding the document last written to it by
  \<^verbatim>\<open>json.dump(..., indent=2)\<close>, or nothing yet. The text written is a function of
  the document, whose dictionaries keep their order; the document stands for it.
\<close>

record checkpoint_files =
  output_file :: "json option"
  error_file :: "json option"

text \<open>
  \<open>now1\<close> and \<open>now2\<close> are what the two calls of \<^verbatim>\<open>time.time()\<close> return; the
  second call is made only when there are errors to save.
\<close>

definition save_processed_data ::
  "processor \<Rightarrow> real \<Rightarrow> real \<Rightarrow> checkpoint_files \<Rightarrow> checkpoint_files" where
  "save_processed_data p now1 now2 files =
     (let files1 = files\<lparr>output_file := Some (JDict
            [(''processed_icons'', JList (map JDict (processed_data p))),
             (''total_count'', JInt (int (length (processed_data p)))),
             (''timestamp'', JNum now1),
             (''embedding_model'', JStr ''text-embedding-3-small''),
             (''vision_model'', JStr ''gpt-4o-mini'')])\<rparr>
      in
      if error_data p \<noteq> [] then
        files1\<lparr>error_file := Some (JDict
            [(''error_icons'', JList (map JDict (error_data p))),
             (''total_errors'', JInt (int (length (error_data p)))),
             (''timestamp'', JNum now2)])\<rparr>
      else files1)"

text \<open>A document without its \<^verbatim>\<open>timestamp\<close> entry.\<close>

fun without_timestamp :: "json \<Rightarrow> json" where
  "without_timestamp (JDict kvs) = JDict (filter (\<lambda>kv. fst kv \<noteq> ''timestamp'') kvs)"
| "without_timestamp v = v"

subsection \<open>process\_icon\<close>

text \<open>
  What the world outside answers to one call of \<^verbatim>\<open>process_icon\<close>: the result of
  \<^verbatim>\<open>prepare_icon_for_vision\<close>, the result of \<^verbatim>\<open>generate_description\<close>, the size
  of the image (nothing when opening it raises), the text of
  \<^verbatim>\<open>str(Path(local_path))\<close>, the text of an exception raised in the body, and the
  reading of the clock.
\<close>

record task_env =
  prepared_image :: "string option"
  vision_reply :: "string option"
  image_size :: "(int \<times> int) option"
  path_text :: string
  exception_text :: string
  clock :: real

definition error_entry :: "dict \<Rightarrow> string \<Rightarrow> string \<Rightarrow> real \<Rightarrow> dict" where
  "error_entry icon_data msg step now =
     [(''icon_data'', JDict icon_data), (''error'', JStr msg), (''step'', JStr step),
      (''timestamp'', JNum now)]"

definition replace_underscores :: "string \<Rightarrow> string" where
  "replace_underscores s = map (\<lambda>c. if c = CHR ''_'' then CHR '' '' else c) s"

definition absent :: "string option \<Rightarrow> bool" where
  "absent r = (case r of None \<Rightarrow> True | Some s \<Rightarrow> s = [])"

text \<open>
  The result is the processed record, or \<open>None\<close>, together with the entries appended to
  \<^verbatim>\<open>self.error_data\<close>. \<^verbatim>\<open>Path(...)\<close> raises on a path that is not a string and
  \<^verbatim>\<open>icon_name.replace\<close> on a name that is not one; the \<^verbatim>\<open>except\<close> clause turns
  both into a \<^verbatim>\<open>general_exception\<close> entry.
\<close>

definition process_icon :: "dict \<Rightarrow> task_env \<Rightarrow> dict option \<times> dict list" where
  "process_icon icon_data env =
     (let icon_name = dict_get icon_data ''name'' (JStr ''unknown'') in
      case map_of icon_data ''local_path'' of
        None \<Rightarrow>
          (None, [error_entry icon_data ''no local file path'' ''validation'' (clock env)])
      | Some local_path \<Rightarrow>
          if \<not> is_str local_path then
            (None, [error_entry icon_data (exception_text env) ''general_exception'' (clock env)])
          else if absent (prepared_image env) then
            (None, [error_entry icon_data ''failed to prepare image'' ''image_preparation''
                      (clock env)])
          else
            (case vision_reply env of
               None \<Rightarrow>
                 (None, [error_entry icon_data ''failed to generate description'' ''vision_api''
                           (clock env)])
             | Some description \<Rightarrow>
                 if description = [] then
                   (None, [error_entry icon_data ''failed to generate description''
                             ''vision_api'' (clock env)])
                 else if \<not> is_str icon_name then
                   (None, [error_entry icon_data (exception_text env) ''general_exception''
                             (clock env)])
                 else
                   (Some
                      [(''name'', icon_name),
                       (''filename'', dict_get icon_data ''filename'' (JStr [])),
                       (''local_path'', JStr (path_text env)),
                       (''description'', JStr description),
                       (''searchable_text'',
                          JStr (replace_underscores (str_of icon_name) @ '' '' @ description)),
                       (''width'', (case image_size env of None \<Rightarrow> JNull
                                    | Some (w, h) \<Rightarrow> JInt w)),
                       (''height'', (case image_size env of None \<Rightarrow> JNull
                                     | Some (w, h) \<Rightarrow> JInt h)),
                       (''source_data'', JDict icon_data)],
                    [])))"

subsection \<open>One batch of process\_all\_icons\<close>

text \<open>
  \<^verbatim>\<open>asyncio.gather(*tasks, return_exceptions=True)\<close> starts one task per item of the
  batch and keeps one slot per task. \<open>order\<close> lists the tasks in the order in which they
  run to their end: a task that ends appends its error entries to the shared
  \<^verbatim>\<open>error_data\<close> and its result lands in its own slot. The call returns the slots, in
  the order of the tasks, once every slot is filled, and never returns while a task is
  pending (\<open>None\<close>).
\<close>

datatype task_result = Raised exn | Returned "dict option"

definition run_task :: "processor \<Rightarrow> dict \<times> task_env \<Rightarrow> processor \<times> task_result" where
  "run_task p item =
     (case process_icon (fst item) (snd item) of
        (result, errors) \<Rightarrow> (p\<lparr>error_data := error_data p @ errors\<rparr>, Returned result))"

fun run_tasks ::
  "processor \<Rightarrow> (dict \<times> task_env) list \<Rightarrow> nat list \<Rightarrow> task_result option list
     \<Rightarrow> processor \<times> task_result option list" where
  "run_tasks p batch [] slots = (p, slots)"
| "run_tasks p batch (j # order) slots =
     (if j < length batch then
        (case run_task p (batch ! j) of
           (p', r) \<Rightarrow> run_tasks p' batch order (slots[j := Some r]))
      else run_tasks p batch order slots)"

definition gather ::
  "processor \<Rightarrow> (dict \<times> task_env) list \<Rightarrow> nat list \<Rightarrow> (processor \<times> task_result list) option" where
  "gather p batch order =
     (case run_tasks p batch order (replicate (length batch) None) of
        (p', slots) \<Rightarrow>
          (case those slots of None \<Rightarrow> None | Some results \<Rightarrow> Some (p', results)))"

text \<open>
  The loop over \<^verbatim>\<open>batch_results\<close>, with the two counters of
  \<^verbatim>\<open>process_all_icons\<close>. With \<^verbatim>\<open>return_exceptions=True\<close> the call of
  \<^verbatim>\<open>gather\<close> hands exceptions back as results, so the \<^verbatim>\<open>except\<close> clause
  around the batch has nothing to catch.
\<close>

record progress =
  proc :: processor
  processed_count :: nat
  batch_failed_count :: nat

fun collect_results :: "progress \<Rightarrow> task_result list \<Rightarrow> progress" where
  "collect_results pg [] = pg"
| "collect_results pg (Raised e # rest) =
     collect_results (pg\<lparr>batch_failed_count := batch_failed_count pg + 1\<rparr>) rest"
| "collect_results pg (Returned (Some result) # rest) =
     collect_results
       (pg\<lparr>proc := (proc pg)\<lparr>processed_data := processed_data (proc pg) @ [result]\<rparr>,
           processed_count := processed_count pg + 1\<rparr>) rest"
| "collect_results pg (Returned None # rest) =
     collect_results (pg\<lparr>batch_failed_count := batch_failed_count pg + 1\<rparr>) rest"

definition process_batch ::
  "progress \<Rightarrow> (dict \<times> task_env) list \<Rightarrow> nat list \<Rightarrow> progress option" where
  "process_batch pg batch order =
     (case gather (proc pg) batch order of
        None \<Rightarrow> None
      | Some (p', batch_results) \<Rightarrow> Some (collect_results (pg\<lparr>proc := p'\<rparr>) batch_results))"

text \<open>The records a batch yields, in the order of its items.\<close>

definition batch_successes :: "(dict \<times> task_env) list \<Rightarrow> dict list" where
  "batch_successes batch = List.map_filter (\<lambda>item. fst (process_icon (fst item) (snd item))) batch"

section \<open>The embedding client\<close>

subsection \<open>embed\_single\_process.py: reading and matching responses\<close>

text \<open>
  A line of the subprocess's output, after \<^verbatim>\<open>strip\<close>: \<open>Parsed d\<close> when it starts
  with a brace and \<^verbatim>\<open>json.loads\<close> turns it into the dictionary \<open>d\<close>; \<open>Noise\<close> for
  an empty line, a log line, or a line that does not parse. \<^verbatim>\<open>_read_responses\<close>
  puts a parsed line on the queue when it has the key \<^verbatim>\<open>id\<close>; the result is the
  content of the queue, in order of arrival.
\<close>

datatype output_line = Noise | Parsed dict

fun queued :: "output_line \<Rightarrow> dict option" where
  "queued Noise = None"
| "queued (Parsed d) = (if map_of d ''id'' \<noteq> None then Some d else None)"

definition read_responses :: "output_line list \<Rightarrow> dict list" where
  "read_responses lines = List.map_filter queued lines"

text \<open>\<^verbatim>\<open>v == k\<close> for an integer \<open>k\<close>: numbers compare by value, \<^verbatim>\<open>True\<close> is 1.\<close>

fun py_eq_int :: "json \<Rightarrow> int \<Rightarrow> bool" where
  "py_eq_int (JInt i) k = (i = k)"
| "py_eq_int (JNum x) k = (x = real_of_int k)"
| "py_eq_int (JBool b) k = ((if b then 1 else 0) = k)"
| "py_eq_int v k = False"

text \<open>A response is tagged \<open>k\<close> when its \<^verbatim>\<open>id\<close> equals the request identifier \<open>k\<close>.\<close>

definition tagged :: "int \<Rightarrow> dict \<Rightarrow> bool" where
  "tagged k response =
     (case map_of response ''id'' of None \<Rightarrow> False | Some i \<Rightarrow> py_eq_int i k)"

text \<open>
  What the call hands back for a matching response:
  \<^verbatim>\<open>response.get('embedding') if 'error' not in response else None\<close>.
\<close>

definition payload :: "dict \<Rightarrow> json" where
  "payload response =
     (if map_of response ''error'' = None then dict_get response ''embedding'' JNull else JNull)"

text \<open>
  \<^verbatim>\<open>generate_embedding\<close> after the request has been written: the loop takes the
  responses off the queue one by one until one carries the request's identifier. The
  argument is everything the queue will ever hold. On an empty queue
  \<^verbatim>\<open>response_queue.get()\<close> blocks without a time limit, so the call does not return:
  the value \<open>None\<close>. A call that returns gives its result and the queue it leaves.
\<close>

fun generate_embedding :: "int \<Rightarrow> dict list \<Rightarrow> (exn + json \<times> dict list) option" where
  "generate_embedding request_id [] = None"
| "generate_embedding request_id (response # queue) =
     (case dict_item response ''id'' of
        Inl e \<Rightarrow> Some (Inl e)
      | Inr i \<Rightarrow>
          if py_eq_int i request_id then Some (Inr (payload response, queue))
          else generate_embedding request_id queue)"


subsection \<open>embed\_db\_missing.py: the backfill of missing embeddings\<close>

text \<open>
  The rows \<^verbatim>\<open>SELECT id, name, searchable_text FROM icons WHERE embedding IS NULL OR
  embedding = ''\<close> returns.
\<close>

definition needs_embedding :: "icon_row \<Rightarrow> bool" where
  "needs_embedding r = (embedding_col r = SNull \<or> embedding_col r = SText [])"

definition missing_icons :: "database \<Rightarrow> (nat \<times> sqlval \<times> sqlval) list" where
  "missing_icons db =
     map (\<lambda>r. (row_id r, name_col r, searchable_text_col r)) (filter needs_embedding (icons db))"

text \<open>\<^verbatim>\<open>UPDATE icons SET embedding = ? WHERE id = ?\<close> with \<^verbatim>\<open>json.dumps(embedding)\<close>.\<close>

definition sql_update_embedding :: "database \<Rightarrow> json \<Rightarrow> nat \<Rightarrow> database" where
  "sql_update_embedding db embedding icon_id =
     db\<lparr>icons := map (\<lambda>r. if row_id r = icon_id then r\<lparr>embedding_col := SJson embedding\<rparr> else r)
                     (icons db)\<rparr>"

text \<open>
  The loop of \<^verbatim>\<open>main\<close>. \<open>embed_call i t\<close> is what
  \<^verbatim>\<open>server.generate_embedding(i, searchable_text)\<close> answers to request \<open>i\<close>: an
  embedding, \<open>JNull\<close> for \<^verbatim>\<open>None\<close>, or an exception (a broken pipe to the
  subprocess). After the UPDATE the loop prints \<^verbatim>\<open>len(embedding)\<close>, which raises
  on an answer that has no length. The loop returns the database with the two counters.
\<close>

fun backfill_loop ::
  "(int \<Rightarrow> sqlval \<Rightarrow> exn + json) \<Rightarrow> int \<Rightarrow> database \<Rightarrow> nat \<Rightarrow> nat
     \<Rightarrow> (nat \<times> sqlval \<times> sqlval) list \<Rightarrow> exn + database \<times> nat \<times> nat" where
  "backfill_loop embed_call i db completed failed [] = Inr (db, completed, failed)"
| "backfill_loop embed_call i db completed failed ((icon_id, name, searchable_text) # rest) =
     (case embed_call i searchable_text of
        Inl e \<Rightarrow> Inl e
      | Inr embedding \<Rightarrow>
          if truthy embedding then
            (case py_len embedding of
               Inl e \<Rightarrow> Inl e
             | Inr n \<Rightarrow>
                 backfill_loop embed_call (i + 1) (sql_update_embedding db embedding icon_id)
                   (completed + 1) failed rest)
          else backfill_loop embed_call (i + 1) db completed (failed + 1) rest)"

text \<open>
  The content of the database file after \<^verbatim>\<open>main\<close>: the updates are committed after
  the loop; an exception skips the commit and the \<^verbatim>\<open>finally\<close> clause closes the
  connection, which discards them.
\<close>

definition backfill_main :: "(int \<Rightarrow> sqlval \<Rightarrow> exn + json) \<Rightarrow> database \<Rightarrow> database" where
  "backfill_main embed_call db =
     (let missing = missing_icons db in
      if length missing = 0 then db
      else
        (case backfill_loop embed_call 1 db 0 0 missing of
           Inl e \<Rightarrow> db
         | Inr (db', completed, failed) \<Rightarrow> db'))"

text \<open>
  A row after the pass, against the same row before: untouched, or changed in its
  embedding column only, and then one of the rows selected.
\<close>

definition only_embedding_backfilled :: "icon_row \<Rightarrow> icon_row \<Rightarrow> bool" where
  "only_embedding_backfilled r r' =
     (r' = r \<or> (needs_embedding r \<and> (\<exists>v. r' = r\<lparr>embedding_col := v\<rparr>)))"

text \<open>Two databases that differ at most in the table \<^verbatim>\<open>icons\<close>.\<close>

definition same_but_icons :: "database \<Rightarrow> database \<Rightarrow> bool" where
  "same_but_icons db db' \<longleftrightarrow>
     icon_embeddings db' = icon_embeddings db \<and> icons_fts db' = icons_fts db \<and>
     autoincrement db' = autoincrement db"

section \<open>Example records\<close>

text \<open>Concrete inputs on which the theorems below are instantiated.\<close>

definition icon_x_first :: dict where
  "icon_x_first = [(''name'', JStr ''x''), (''description'', JStr ''from the first run'')]"

definition icon_x_second :: dict where
  "icon_x_second = [(''name'', JStr ''x''), (''description'', JStr ''from the retry run'')]"

definition icon_y :: dict where
  "icon_y = [(''name'', JStr ''y''), (''description'', JStr ''another icon'')]"

definition icon_unnamed :: dict where
  "icon_unnamed = [(''description'', JStr ''no name key'')]"

definition icon_text_embedding :: dict where
  "icon_text_embedding =
     [(''name'', JStr ''a''), (''description'', JStr ''d''),
      (''embedding'', JList [JStr ''not a number'']), (''local_path'', JStr ''a.png'')]"

definition icon_record :: "string \<Rightarrow> json list \<Rightarrow> dict" where
  "icon_record n emb =
     [(''name'', JStr n), (''filename'', JStr (n @ ''.png'')),
      (''local_path'', JStr (''static/icons/'' @ n @ ''.png'')),
      (''description'', JStr ''An icon''), (''searchable_text'', JStr (n @ '' An icon'')),
      (''embedding'', JList emb)]"

definition env_ok :: "string \<Rightarrow> task_env" where
  "env_ok d =
     \<lparr>prepared_image = Some ''iVBORw0KGgo='', vision_reply = Some d, image_size = Some (32, 32),
      path_text = ''static/icons/icon.png'', exception_text = '''', clock = 0\<rparr>"

definition item_a :: "dict \<times> task_env" where
  "item_a = ([(''name'', JStr ''a''), (''local_path'', JStr ''static/icons/icon.png'')],
             env_ok ''A folder'')"

definition item_b :: "dict \<times> task_env" where
  "item_b = ([(''name'', JStr ''b''), (''local_path'', JStr ''static/icons/icon.png'')],
             env_ok ''A calculator'')"

definition item_no_path :: "dict \<times> task_env" where
  "item_no_path = ([(''name'', JStr ''c'')], env_ok ''A monitor'')"

definition progress_init :: progress where
  "progress_init =
     \<lparr>proc = \<lparr>processed_data = [], error_data = []\<rparr>, processed_count = 0,
      batch_failed_count = 0\<rparr>"

definition reply_1 :: dict where
  "reply_1 = [(''id'', JInt 1), (''embedding'', JList [JNum 1, JNum 0])]"

definition reply_2 :: dict where
  "reply_2 = [(''id'', JInt 2), (''embedding'', JList [JNum 0, JNum 1])]"

definition reply_3_error :: dict where
  "reply_3_error = [(''id'', JInt 3), (''error'', JBool True)]"

definition server_output :: "output_line list" where
  "server_output = [Noise, Parsed reply_2, Noise, Parsed reply_3_error, Parsed reply_1]"

text \<open>
  An environment whose console prints every name; the records below hold no number in a
  TEXT column and nothing but NULL in an INTEGER column.
\<close>

definition env_utf8 :: environment where
  "env_utf8 = \<lparr>console = (\<lambda>v. True), real_text = (\<lambda>x. ''0.0''), integer_affinity = (\<lambda>v. v)\<rparr>"

text \<open>
  A database assembled with two dimensions configured: the row of \<open>x\<close> holds an
  embedding, the row of \<open>y\<close> (embedding of length one) holds NULL.
\<close>

definition db_two :: database where
  "db_two =
     (case insert_icons env_utf8 2 create_database
             [JDict (icon_record ''x'' [JNum 1, JNum 2]), JDict (icon_record ''y'' [JNum 5])] of
        Inr st \<Rightarrow> conn st
      | Inl e \<Rightarrow> create_database)"

text \<open>A complete record under any name, and a record with a width beyond 64 bits.\<close>

definition icon_with_name :: "json \<Rightarrow> dict" where
  "icon_with_name v =
     [(''name'', v), (''filename'', JStr ''icon.png''),
      (''local_path'', JStr ''static/icons/icon.png''), (''description'', JStr ''An icon''),
      (''searchable_text'', JStr ''An icon''), (''embedding'', JList [JNum 1, JNum 2])]"

definition icon_wide :: dict where
  "icon_wide = (''width'', JInt (2 ^ 63)) # icon_record ''w'' [JNum 1, JNum 2]"





section \<open>Properties of the run merger\<close>

lemma find_filter_conv: "find P xs = (case filter P xs of [] \<Rightarrow> None | x # _ \<Rightarrow> Some x)"
  by (induction xs) auto

lemma deduplicate_loop_length:
  "deduplicate_loop st xs = Inr st' \<Longrightarrow>
     length (deduplicated st') + duplicates_count st' =
     length (deduplicated st) + duplicates_count st + length xs"
proof (induction xs arbitrary: st)
  case Nil
  then show ?case by simp
next
  case (Cons x xs)
  then show ?case
    by (auto simp: Let_def split: if_splits sum.splits)
qed

lemma deduplicate_loop_filter:
  "deduplicate_loop st xs = Inr st' \<Longrightarrow>
     filter (has_key k) (deduplicated st') =
       filter (has_key k) (deduplicated st) @
       (if k \<in> seen_names st then []
        else (case find (has_key k) xs of None \<Rightarrow> [] | Some r \<Rightarrow> [r]))"
proof (induction xs arbitrary: st)
  case Nil
  then show ?case by simp
next
  case (Cons x xs)
  show ?case
  proof (cases "truthy (name_of x)")
    case False
    then have "\<not> has_key k x" by (simp add: has_key_def)
    with Cons False show ?thesis by (simp add: Let_def)
  next
    case True
    with Cons.prems obtain kx where kx: "hash_key (name_of x) = Inr kx"
      by (auto simp: Let_def split: sum.splits)
    show ?thesis
    proof (cases "kx \<in> seen_names st")
      case seen: True
      with Cons True kx show ?thesis
        by (auto simp: Let_def has_key_def)
    next
      case fresh: False
      with Cons.prems True kx have
        "deduplicate_loop (st\<lparr>seen_names := insert kx (seen_names st),
                    deduplicated := deduplicated st @ [x]\<rparr>) xs = Inr st'"
        by (simp add: Let_def)
      from Cons.IH[OF this] True kx fresh show ?thesis
        by (auto simp: has_key_def)
    qed
  qed
qed

lemma deduplicate_loop_names:
  "deduplicate_loop st xs = Inr st' \<Longrightarrow>
     set (deduplicated st') \<subseteq> set (deduplicated st) \<union> {r \<in> set xs. truthy (name_of r)}"
proof (induction xs arbitrary: st)
  case Nil
  then show ?case by simp
next
  case (Cons x xs)
  then show ?case
    by (fastforce simp: Let_def split: if_splits sum.splits)
qed

lemma deduplicate_loop_returns:
  "(\<exists>st'. deduplicate_loop st xs = Inr st') \<longleftrightarrow>
   (\<forall>r \<in> set xs. truthy (name_of r) \<longrightarrow> (\<exists>k. hash_key (name_of r) = Inr k))"
proof (induction xs arbitrary: st)
  case Nil
  then show ?case by simp
next
  case (Cons x xs)
  show ?case
  proof (cases "truthy (name_of x)")
    case False
    then show ?thesis using Cons.IH by (simp add: Let_def)
  next
    case True
    show ?thesis
    proof (cases "hash_key (name_of x)")
      case (Inl e)
      with True show ?thesis by (auto simp: Let_def)
    next
      case (Inr kx)
      with True show ?thesis using Cons.IH by (auto simp: Let_def)
    qed
  qed
qed

lemma on_result_simps [simp]:
  "on_result f (Inl e) = Inl e" "on_result f (Inr v) = Inr (f v)"
  by (simp_all add: on_result_def)

lemma deduplicate_loop_count_shift:
  "deduplicate_loop (s\<lparr>duplicates_count := duplicates_count s + n\<rparr>) ys =
     on_result (\<lambda>s. s\<lparr>duplicates_count := duplicates_count s + n\<rparr>) (deduplicate_loop s ys)"
proof (induction ys arbitrary: s)
  case Nil
  then show ?case by simp
next
  case (Cons y ys)
  let ?bump = "\<lambda>t::dedup_state. t\<lparr>duplicates_count := duplicates_count t + n\<rparr>"
  let ?skip = "s\<lparr>duplicates_count := duplicates_count s + 1\<rparr>"
  show ?case
  proof (cases "truthy (name_of y)")
    case False
    then show ?thesis
      using Cons.IH[of ?skip] by (simp add: Let_def)
  next
    case True
    show ?thesis
    proof (cases "hash_key (name_of y)")
      case (Inl e)
      with True show ?thesis by (simp add: Let_def)
    next
      case (Inr k)
      show ?thesis
      proof (cases "k \<in> seen_names s")
        case seen: True
        with True Inr show ?thesis
          using Cons.IH[of ?skip] by (simp add: Let_def)
      next
        case fresh: False
        let ?keep = "s\<lparr>seen_names := insert k (seen_names s),
                         deduplicated := deduplicated s @ [y]\<rparr>"
        have keep: "(?bump s)\<lparr>seen_names := insert k (seen_names s),
                         deduplicated := deduplicated s @ [y]\<rparr> = ?bump ?keep"
          by simp
        have "deduplicate_loop (?bump s) (y # ys) =
              deduplicate_loop ((?bump s)\<lparr>seen_names := insert k (seen_names s),
                         deduplicated := deduplicated s @ [y]\<rparr>) ys"
          using True Inr fresh by (simp add: Let_def)
        also have "\<dots> = deduplicate_loop (?bump ?keep) ys"
          by (simp only: keep)
        also have "\<dots> = on_result ?bump (deduplicate_loop ?keep ys)"
          by (rule Cons.IH)
        also have "\<dots> = on_result ?bump (deduplicate_loop s (y # ys))"
          using True Inr fresh by (simp add: Let_def)
        finally show ?thesis .
      qed
    qed
  qed
qed

lemma deduplicate_loop_nameless:
  "nameless r \<Longrightarrow>
   deduplicate_loop st (xs @ r # ys) =
     on_result (\<lambda>s. s\<lparr>duplicates_count := duplicates_count s + 1\<rparr>)
       (deduplicate_loop st (xs @ ys))"
proof (induction xs arbitrary: st)
  case Nil
  then show ?case
    using deduplicate_loop_count_shift[of st 1 ys] by (simp add: nameless_def)
next
  case (Cons x xs)
  show ?case
  proof (cases "truthy (name_of x)")
    case False
    then show ?thesis using Cons.IH[OF Cons.prems] by (simp add: Let_def)
  next
    case True
    show ?thesis
    proof (cases "hash_key (name_of x)")
      case (Inl e)
      with True show ?thesis by (simp add: Let_def)
    next
      case (Inr k)
      with True show ?thesis using Cons.IH[OF Cons.prems] by (simp add: Let_def)
    qed
  qed
qed

lemma deduplicate_run_filter:
  assumes "deduplicate_run all_icons = Inr st"
  shows "filter (has_key k) (deduplicated st) =
           (case find (has_key k) all_icons of None \<Rightarrow> [] | Some r \<Rightarrow> [r])"
  using deduplicate_loop_filter[of dedup_init all_icons st k] assms
  by (simp add: deduplicate_run_def dedup_init_def)

lemma deduplicate_run_length:
  assumes "deduplicate_run all_icons = Inr st"
  shows "length (deduplicated st) + duplicates_count st = length all_icons"
  using deduplicate_loop_length[of dedup_init all_icons st] assms
  by (simp add: deduplicate_run_def dedup_init_def)

lemma deduplicate_run_named:
  assumes "deduplicate_run all_icons = Inr st" and "r \<in> set (deduplicated st)"
  shows "r \<in> set all_icons \<and> truthy (name_of r)"
  using deduplicate_loop_names[of dedup_init all_icons st] assms
  by (auto simp: deduplicate_run_def dedup_init_def)

lemma deduplicate_icons_Inr:
  "deduplicate_icons all_icons = Inr out \<longleftrightarrow>
     (\<exists>st. deduplicate_run all_icons = Inr st \<and> out = deduplicated st)"
  by (auto simp: deduplicate_icons_def split: sum.splits)

lemma deduplicate_icons_returns:
  "(\<exists>out. deduplicate_icons all_icons = Inr out) \<longleftrightarrow>
   (\<forall>r \<in> set all_icons. truthy (name_of r) \<longrightarrow> (\<exists>k. hash_key (name_of r) = Inr k))"
  using deduplicate_loop_returns[of dedup_init all_icons]
  by (simp add: deduplicate_icons_Inr deduplicate_run_def)

lemma deduplicate_run_nameless:
  "nameless r \<Longrightarrow>
   deduplicate_run (xs @ r # ys) =
     on_result (\<lambda>s. s\<lparr>duplicates_count := duplicates_count s + 1\<rparr>)
       (deduplicate_run (xs @ ys))"
  by (simp add: deduplicate_run_def deduplicate_loop_nameless)

lemma deduplicate_icons_nameless:
  "nameless r \<Longrightarrow> deduplicate_icons (xs @ r # ys) = deduplicate_icons (xs @ ys)"
  by (simp add: deduplicate_icons_def deduplicate_run_nameless on_result_def split: sum.splits)

lemma deduplicate_icons_length:
  "deduplicate_icons all_icons = Inr out \<Longrightarrow> length out \<le> length all_icons"
  using deduplicate_run_length by (fastforce simp: deduplicate_icons_Inr)

lemma find_append_Some: "find P xs = Some r \<Longrightarrow> find P (xs @ ys) = Some r"
  by (induction xs) (auto split: if_splits)

lemma find_append_None:
  "list_all (\<lambda>r. \<not> P r) xs \<Longrightarrow> find P (xs @ ys) = find P ys"
  by (induction xs) auto

text \<open>
  The deduplicated list: let \<open>R1\<close> be the first input run that contains a record named
  \<open>k\<close>, and \<open>r1\<close> the first such record in it. Then the list holds exactly one
  record named \<open>k\<close>, and it is \<open>r1\<close>, whatever the later runs hold under the same
  name; and the list is no longer than the input runs together.
\<close>

lemma deduplicate_icons_first_occurrence:
  assumes "deduplicate_icons (concat (earlier @ R1 # later)) = Inr out"
      and "list_all (\<lambda>r. \<not> has_key k r) (concat earlier)"
      and "find (has_key k) R1 = Some r1"
  shows "find (has_key k) out = Some r1 \<and>
         filter (has_key k) out = [r1] \<and>
         length out \<le> sum_list (map length (earlier @ R1 # later))"
proof -
  let ?all = "concat (earlier @ R1 # later)"
  from assms(1) obtain st where st: "deduplicate_run ?all = Inr st" "out = deduplicated st"
    by (auto simp: deduplicate_icons_Inr)
  have "find (has_key k) (R1 @ concat later) = Some r1"
    using assms(3) by (rule find_append_Some)
  then have "find (has_key k) ?all = Some r1"
    using find_append_None[OF assms(2), of "R1 @ concat later"] by simp
  with deduplicate_run_filter[OF st(1), of k] st(2)
  have f: "filter (has_key k) out = [r1]" by simp
  then have "find (has_key k) out = Some r1"
    by (simp add: find_filter_conv)
  moreover have "length out \<le> sum_list (map length (earlier @ R1 # later))"
    using deduplicate_icons_length[OF assms(1)] by (simp add: length_concat)
  ultimately show ?thesis using f by simp
qed

lemma concat_insert_split:
  "concat (rs1 @ (xs @ r # ys) # rs2) = (concat rs1 @ xs) @ r # (ys @ concat rs2)"
  "concat (rs1 @ (xs @ ys) # rs2) = (concat rs1 @ xs) @ (ys @ concat rs2)"
  by simp_all

lemma deduplicate_icons_nil: "deduplicate_icons [] = Inr []"
  by (simp add: deduplicate_icons_def deduplicate_run_def dedup_init_def)

lemma combine_runs_concat:
  assumes "concat runs = A" and "runs \<noteq> []"
  shows "combine_runs runs =
     (if A = [] then Inr None
      else
        (case deduplicate_icons A of
           Inl e \<Rightarrow> Inl e
         | Inr dd \<Rightarrow>
             (if filter validate_icon_data dd = [] then Inr None
              else
                (case sort_by_name (filter validate_icon_data dd) of
                   Inl e \<Rightarrow> Inl e
                 | Inr sorted_icons \<Rightarrow>
                     Inr (Some
                       \<lparr>processed_icons = sorted_icons,
                        total_count = length sorted_icons,
                        total_loaded = length A,
                        after_dedup = length dd,
                        after_validation = length sorted_icons,
                        duplicates_removed = length A - length dd,
                        invalid_removed =
                          length (filter (\<lambda>i. \<not> validate_icon_data i) dd)\<rparr>)))))"
  using assms by (auto simp: combine_runs_def Let_def split: sum.splits)

lemma combine_runs_nameless:
  assumes "nameless r"
  shows "combine_runs (rs1 @ (xs @ r # ys) # rs2) =
     on_result (map_option (\<lambda>c. c\<lparr>total_loaded := total_loaded c + 1,
                                     duplicates_removed := duplicates_removed c + 1\<rparr>))
       (combine_runs (rs1 @ (xs @ ys) # rs2))"
proof -
  define A where "A = concat rs1 @ xs"
  define B where "B = ys @ concat rs2"
  have with_r: "concat (rs1 @ (xs @ r # ys) # rs2) = A @ r # B"
    and without: "concat (rs1 @ (xs @ ys) # rs2) = A @ B"
    by (simp_all add: A_def B_def)
  have d: "deduplicate_icons (A @ r # B) = deduplicate_icons (A @ B)"
    using assms by (rule deduplicate_icons_nameless)
  note l = combine_runs_concat[OF with_r] combine_runs_concat[OF without]
  show ?thesis
  proof (cases "A @ B = []")
    case True
    then have "deduplicate_icons (A @ r # B) = Inr []"
      using d by (simp add: deduplicate_icons_nil)
    then show ?thesis using True
      by (simp add: l)
  next
    case False
    show ?thesis
    proof (cases "deduplicate_icons (A @ B)")
      case (Inl e)
      then show ?thesis using d False
        by (simp add: l)
    next
      case (Inr out)
      have "length out \<le> length (A @ B)"
        using Inr by (rule deduplicate_icons_length)
      then have len: "Suc (length A + length B) - length out = Suc (length A + length B - length out)"
        by simp
      show ?thesis using d False Inr len
        by (auto simp: l split: sum.splits)
    qed
  qed
qed

text \<open>
  Claim C10. A record whose name is missing or empty (\<open>nameless\<close>: the value under
  \<^verbatim>\<open>name\<close>, or the default empty string, is falsy) never reaches the deduplicated
  output, wherever it stands in the input, also as the first or the only record. Its only
  trace is one more in \<^verbatim>\<open>duplicates_count\<close>: deduplication of the input with the
  record equals deduplication of the input without it, up to that count. In the combined
  document it adds one to \<^verbatim>\<open>total_loaded\<close> and to \<^verbatim>\<open>duplicates_removed\<close> and
  changes nothing else, so it is neither kept nor counted in \<^verbatim>\<open>invalid_removed\<close>.
\<close>

theorem nameless_record_discarded:
  assumes "nameless r"
  shows "deduplicate_run (xs @ r # ys) =
           on_result (\<lambda>s. s\<lparr>duplicates_count := duplicates_count s + 1\<rparr>)
             (deduplicate_run (xs @ ys)) \<and>
         deduplicate_icons (xs @ r # ys) = deduplicate_icons (xs @ ys) \<and>
         (\<forall>all_icons out. deduplicate_icons all_icons = Inr out \<longrightarrow> r \<notin> set out) \<and>
         combine_runs (rs1 @ (xs @ r # ys) # rs2) =
           on_result (map_option (\<lambda>c. c\<lparr>total_loaded := total_loaded c + 1,
                                           duplicates_removed := duplicates_removed c + 1\<rparr>))
             (combine_runs (rs1 @ (xs @ ys) # rs2))"
proof -
  have "r \<notin> set out" if "deduplicate_icons all_icons = Inr out" for all_icons out
    using that assms deduplicate_run_named[of all_icons _ r]
    by (auto simp: deduplicate_icons_Inr nameless_def)
  then show ?thesis
    using assms deduplicate_run_nameless deduplicate_icons_nameless combine_runs_nameless
    by blast
qed

theorem nameless_record_discarded_witness:
  "nameless icon_unnamed \<and>
   deduplicate_run [icon_unnamed] =
     Inr \<lparr>seen_names = {}, deduplicated = [], duplicates_count = 1\<rparr> \<and>
   deduplicate_run ([] @ icon_unnamed # [icon_y]) =
     on_result (\<lambda>s. s\<lparr>duplicates_count := duplicates_count s + 1\<rparr>)
        (deduplicate_run ([] @ [icon_y])) \<and>
   deduplicate_icons ([] @ icon_unnamed # [icon_y]) = Inr [icon_y] \<and>
   combine_runs ([] @ ([] @ icon_unnamed # []) # []) = Inr None"
proof -
  have n: "nameless icon_unnamed"
    by (simp add: nameless_def name_of_def dict_get_def icon_unnamed_def)
  have y: "deduplicate_icons ([] @ [icon_y]) = Inr [icon_y]"
    by (simp add: deduplicate_icons_def deduplicate_run_def dedup_init_def name_of_def
        dict_get_def icon_y_def)
  have c: "combine_runs ([] @ ([] @ []) # []) = Inr None"
    by (simp add: combine_runs_def)
  have one: "deduplicate_run [icon_unnamed] =
     Inr \<lparr>seen_names = {}, deduplicated = [], duplicates_count = 1\<rparr>"
    using n by (simp add: deduplicate_run_def dedup_init_def nameless_def)
  from nameless_record_discarded[OF n, of "[]" "[icon_y]" "[]" "[]"]
       nameless_record_discarded[OF n, of "[]" "[]" "[]" "[]"] n y c one
  show ?thesis by simp
qed

text \<open>
  Claim C5, at an input where the code departs from it. \<^verbatim>\<open>validate_icon_data\<close>
  announces a check that the embedding is a list of numbers, and tests only that it is a
  non-empty list. A record whose embedding is a list holding a string passes validation
  and is written to the merged output.
\<close>

theorem combine_runs_keeps_text_embedding:
  "validate_icon_data icon_text_embedding \<and>
   combine_runs [[icon_text_embedding]] =
     Inr (Some \<lparr>processed_icons = [icon_text_embedding], total_count = 1, total_loaded = 1,
                 after_dedup = 1, after_validation = 1, duplicates_removed = 0,
                 invalid_removed = 0\<rparr>) \<and>
   dict_get icon_text_embedding ''embedding'' JNull = JList [JStr ''not a number''] \<and>
   \<not> is_number (JStr ''not a number'')"
proof -
  have v: "validate_icon_data icon_text_embedding"
    by (simp add: validate_icon_data_def missing_fields_def required_fields_def
        field_missing_def dict_get_def icon_text_embedding_def)
  have d: "deduplicate_icons [icon_text_embedding] = Inr [icon_text_embedding]"
    by (simp add: deduplicate_icons_def deduplicate_run_def dedup_init_def name_of_def
        dict_get_def icon_text_embedding_def)
  have c: "combine_runs [[icon_text_embedding]] =
     Inr (Some \<lparr>processed_icons = [icon_text_embedding], total_count = 1, total_loaded = 1,
                 after_dedup = 1, after_validation = 1, duplicates_removed = 0,
                 invalid_removed = 0\<rparr>)"
    using v d by (simp add: combine_runs_def sort_by_name_def Let_def)
  have e: "dict_get icon_text_embedding ''embedding'' JNull = JList [JStr ''not a number'']"
    by (simp add: dict_get_def icon_text_embedding_def)
  from v c e show ?thesis by simp
qed

text \<open>
  What \<^verbatim>\<open>combine_runs\<close> does guarantee of its output: every record passed
  \<^verbatim>\<open>validate_icon_data\<close> (the four required fields are present and truthy, the
  embedding is a non-empty list), the records that failed are exactly the ones counted in
  \<^verbatim>\<open>invalid_removed\<close>, and the output is ordered by name.
\<close>

lemma validate_icon_data_fields:
  assumes "validate_icon_data icon" and "field \<in> set required_fields"
  shows "\<exists>v. map_of icon field = Some v \<and> truthy v"
proof -
  from assms(1) have "filter (field_missing icon) required_fields = []"
    by (simp add: validate_icon_data_def missing_fields_def split: if_splits)
  with assms(2) have "\<not> field_missing icon field"
    by (auto simp: filter_empty_conv)
  then show ?thesis
    by (simp add: field_missing_def split: option.splits)
qed

lemma validate_icon_data_embedding:
  assumes "validate_icon_data icon"
  shows "\<exists>xs. map_of icon ''embedding'' = Some (JList xs) \<and> xs \<noteq> []"
proof -
  from validate_icon_data_fields[OF assms, of "''embedding''"]
  obtain v where v: "map_of icon ''embedding'' = Some v"
    by (auto simp: required_fields_def)
  with assms have "is_list v \<and> py_len v \<noteq> Inr 0"
    by (simp add: validate_icon_data_def dict_get_def Let_def split: if_splits)
  with v show ?thesis by (cases v) auto
qed

lemma sort_by_name_set:
  "sort_by_name ics = Inr out \<Longrightarrow> set out = set ics \<and> length out = length ics"
  by (auto simp: sort_by_name_def split: if_splits)

lemma sort_by_name_sorted:
  assumes "sort_by_name ics = Inr out"
  shows "length out \<le> 1 \<or>
         sorted (map (\<lambda>i. str_of (name_of i)) out) \<and> list_all (\<lambda>i. is_str (name_of i)) out \<or>
         sorted (map (\<lambda>i. num_of (name_of i)) out) \<and> list_all (\<lambda>i. is_number (name_of i)) out"
  using assms by (auto simp: sort_by_name_def list_all_iff split: if_splits)

lemma valid_names_scalar:
  assumes "deduplicate_icons all_icons = Inr out" and "r \<in> set out"
  shows "is_str (name_of r) \<or> is_number (name_of r)"
proof -
  from assms obtain st where st: "deduplicate_run all_icons = Inr st" "r \<in> set (deduplicated st)"
    by (auto simp: deduplicate_icons_Inr)
  from deduplicate_run_named[OF st] have r: "r \<in> set all_icons" "truthy (name_of r)"
    by simp_all
  from assms(1) have "\<exists>out. deduplicate_icons all_icons = Inr out" by blast
  with r obtain k where "hash_key (name_of r) = Inr k"
    unfolding deduplicate_icons_returns by blast
  with r(2) show ?thesis by (cases "name_of r") auto
qed

lemma combine_runs_output:
  assumes "combine_runs runs = Inr (Some c)"
  shows "list_all validate_icon_data (processed_icons c) \<and>
         invalid_removed c + after_validation c = after_dedup c \<and>
         after_dedup c + duplicates_removed c = total_loaded c \<and>
         (length (processed_icons c) \<le> 1 \<or>
          sorted (map (\<lambda>i. str_of (name_of i)) (processed_icons c)) \<or>
          sorted (map (\<lambda>i. num_of (name_of i)) (processed_icons c)))"
proof -
  from assms have ne: "runs \<noteq> []"
    by (auto simp: combine_runs_def)
  note c = combine_runs_concat[OF refl ne]
  from assms obtain dd where dd: "deduplicate_icons (concat runs) = Inr dd"
    by (auto simp: c split: if_splits sum.splits)
  with assms obtain sorted_icons where
    s: "sort_by_name (filter validate_icon_data dd) = Inr sorted_icons"
    by (auto simp: c split: if_splits sum.splits)
  from assms dd s have cv: "c =
       \<lparr>processed_icons = sorted_icons, total_count = length sorted_icons,
        total_loaded = length (concat runs), after_dedup = length dd,
        after_validation = length sorted_icons,
        duplicates_removed = length (concat runs) - length dd,
        invalid_removed = length (filter (\<lambda>i. \<not> validate_icon_data i) dd)\<rparr>"
    by (auto simp: c split: if_splits)
  from sort_by_name_set[OF s] have
    ss: "set sorted_icons = set (filter validate_icon_data dd)"
        "length sorted_icons = length (filter validate_icon_data dd)"
    by simp_all
  have "list_all validate_icon_data sorted_icons"
    using ss(1) by (simp add: list_all_iff)
  moreover have "length (filter (\<lambda>i. \<not> validate_icon_data i) dd) + length sorted_icons = length dd"
    using sum_length_filter_compl[of validate_icon_data dd] ss(2) by simp
  moreover have "length dd + (length (concat runs) - length dd) = length (concat runs)"
    using deduplicate_icons_length[OF dd] by simp
  moreover have "length sorted_icons \<le> 1 \<or>
          sorted (map (\<lambda>i. str_of (name_of i)) sorted_icons) \<or>
          sorted (map (\<lambda>i. num_of (name_of i)) sorted_icons)"
    using sort_by_name_sorted[OF s] by blast
  ultimately show ?thesis by (simp add: cv)
qed

text \<open>
  Read off the evaluation above: the merged output exists and holds the record whose
  embedding is a list of one string.
\<close>

theorem combine_runs_keeps_text_embedding_witness:
  "\<exists>c. combine_runs [[icon_text_embedding]] = Inr (Some c) \<and>
       icon_text_embedding \<in> set (processed_icons c) \<and>
       dict_get icon_text_embedding ''embedding'' JNull = JList [JStr ''not a number'']"
  using combine_runs_keeps_text_embedding by simp









section \<open>Properties of the database assembler\<close>

lemma then_do_simps [simp]:
  "then_do (Inl e) f = Inl e" "then_do (Inr v) f = f v"
  by (simp_all add: then_do_def)

lemma then_do_Inr_iff: "then_do r f = Inr y \<longleftrightarrow> (\<exists>v. r = Inr v \<and> f v = Inr y)"
  by (cases r) simp_all

lemma adapt_all_Inr_iff:
  "adapt_all ps = Inr vals \<longleftrightarrow> list_all2 (\<lambda>p v. adapt p = Inr v) ps vals"
proof (induction ps arbitrary: vals)
  case Nil
  then show ?case by auto
next
  case (Cons p ps)
  then show ?case
    by (cases vals) (auto simp: then_do_Inr_iff)
qed

lemma db_ok_fresh:
  assumes "db_ok db"
  shows "Suc (autoincrement db) \<notin> set (map fst (icon_embeddings db))"
    and "Suc (autoincrement db) \<notin> set (map fst (icons_fts db))"
    and "Suc (autoincrement db) \<notin> set (map row_id (icons db))"
  using assms by (auto simp: db_ok_def list_all_iff)

lemma icon_params_Inr:
  assumes "icon_params dims icon = Inr ps"
  shows "\<exists>name filename local_path description stext ok src alt par.
     dict_item icon ''name'' = Inr name \<and>
     dict_item icon ''description'' = Inr description \<and>
     dict_item icon ''searchable_text'' = Inr stext \<and>
     embedding_matches dims icon = Inr ok \<and>
     ps = [Obj name, Obj filename, Obj local_path, Obj description, Obj stext,
           Obj (dict_get icon ''width'' JNull), Obj (dict_get icon ''height'' JNull),
           (if ok then Dumps (dict_get icon ''embedding'' JNull) else Obj JNull),
           Obj src, Obj alt, Obj par]"
  using assms unfolding icon_params_def Let_def then_do_Inr_iff by blast

lemma sql_insert_icon_Inr:
  assumes "sql_insert_icon env db ps = Inr (db1, rid)"
  shows "\<exists>vals row. adapt_all ps = Inr vals \<and>
           icon_row_of env (Suc (autoincrement db)) vals = Some row \<and>
           rid = Suc (autoincrement db) \<and> row_id row = rid \<and>
           db1 = db\<lparr>icons := icons db @ [row], autoincrement := rid\<rparr>"
proof -
  from assms obtain vals where v: "adapt_all ps = Inr vals"
    by (auto simp: sql_insert_icon_def then_do_Inr_iff)
  with assms obtain row where r: "icon_row_of env (Suc (autoincrement db)) vals = Some row"
    by (auto simp: sql_insert_icon_def split: option.splits)
  then have "row_id row = Suc (autoincrement db)"
    by (induction env "Suc (autoincrement db)" vals rule: icon_row_of.induct) auto
  with assms v r show ?thesis
    by (auto simp: sql_insert_icon_def split: if_splits)
qed

lemma try_insert_failure:
  assumes "then_do (icon_params dims icon) (sql_insert_icon env db) = Inl e"
  shows "try_insert env dims db (JDict icon) = (db, Inl e)"
  using assms by (simp add: try_insert_dict_def)

lemma embedding_matches_size:
  assumes "embedding_matches dims icon = Inr ok"
  shows "\<exists>n. warned_size icon = Inr n"
  using assms
  by (cases "dict_get icon ''embedding'' JNull")
     (auto simp: embedding_matches_def warned_size_def dict_get_def then_do_Inr_iff
           split: if_splits option.splits)

lemma try_insert_success:
  assumes ok: "db_ok db"
      and ins: "then_do (icon_params dims icon) (sql_insert_icon env db) = Inr (db1, rid)"
  shows "\<exists>row size n d s.
     rid = Suc (autoincrement db) \<and> row_id row = rid \<and>
     db1 = db\<lparr>icons := icons db @ [row], autoincrement := rid\<rparr> \<and>
     embedding_col row =
       (if embedding_valid dims icon then SJson (dict_get icon ''embedding'' JNull) else SNull) \<and>
     adapt (Obj (dict_get icon ''name'' JNull)) = Inr n \<and>
     name_col row = text_affinity env n \<and>
     dict_item icon ''name'' = Inr (dict_get icon ''name'' JNull) \<and>
     try_insert env dims db (JDict icon) =
       (if embedding_valid dims icon then
          (if is_vector dims (dict_get icon ''embedding'' JNull) then
             (db1\<lparr>icon_embeddings :=
                     icon_embeddings db @ [(rid, dict_get icon ''embedding'' JNull)],
                   icons_fts := icons_fts db @ [(rid, n, d, s)]\<rparr>,
              Inr None)
           else (db1, Inl VectorError))
        else if console env (dict_get icon ''name'' JNull) then
          (db1\<lparr>icons_fts := icons_fts db @ [(rid, n, d, s)]\<rparr>,
           Inr (Some (dict_get icon ''name'' JNull, size)))
        else (db1, Inl UnicodeEncodeError))"
proof -
  from ins obtain ps where ps: "icon_params dims icon = Inr ps"
    and ins1: "sql_insert_icon env db ps = Inr (db1, rid)"
    by (auto simp: then_do_Inr_iff)
  from icon_params_Inr[OF ps] obtain name filename local_path description stext okb src alt par
    where name: "dict_item icon ''name'' = Inr name"
      and descr: "dict_item icon ''description'' = Inr description"
      and stext: "dict_item icon ''searchable_text'' = Inr stext"
      and m: "embedding_matches dims icon = Inr okb"
      and ps_eq: "ps = [Obj name, Obj filename, Obj local_path, Obj description, Obj stext,
           Obj (dict_get icon ''width'' JNull), Obj (dict_get icon ''height'' JNull),
           (if okb then Dumps (dict_get icon ''embedding'' JNull) else Obj JNull),
           Obj src, Obj alt, Obj par]"
    by blast
  from sql_insert_icon_Inr[OF ins1] obtain vals row where
        vals: "adapt_all ps = Inr vals"
    and row: "icon_row_of env (Suc (autoincrement db)) vals = Some row"
    and rid: "rid = Suc (autoincrement db)" "row_id row = rid"
    and db1: "db1 = db\<lparr>icons := icons db @ [row], autoincrement := rid\<rparr>"
    by blast
  from vals have "list_all2 (\<lambda>p v. adapt p = Inr v) ps vals"
    by (simp only: adapt_all_Inr_iff)
  with ps_eq obtain vn vf vl vd vs vw vh ve vsrc valt vpar where
        vals_eq: "vals = [vn, vf, vl, vd, vs, vw, vh, ve, vsrc, valt, vpar]"
    and an: "adapt (Obj name) = Inr vn"
    and ad: "adapt (Obj description) = Inr vd"
    and as: "adapt (Obj stext) = Inr vs"
    and ae: "adapt (if okb then Dumps (dict_get icon ''embedding'' JNull) else Obj JNull) = Inr ve"
    by (auto simp: list_all2_Cons1)
  from row vals_eq have cols: "name_col row = text_affinity env vn"
      "embedding_col row = text_affinity env ve"
    by auto
  have valid: "embedding_valid dims icon = okb"
    using m by (simp add: embedding_valid_def)
  have emb: "embedding_col row =
       (if embedding_valid dims icon then SJson (dict_get icon ''embedding'' JNull) else SNull)"
    using ae cols(2) valid by (auto split: if_splits)
  have name_get: "dict_get icon ''name'' JNull = name"
    using name by (auto simp: dict_item_def dict_get_def split: option.splits)
  from embedding_matches_size[OF m] obtain size where size: "warned_size icon = Inr size"
    by blast
  have fresh: "rid \<notin> set (map fst (icon_embeddings db))" "rid \<notin> set (map fst (icons_fts db))"
    using db_ok_fresh[OF ok] rid by simp_all
  have fts: "insert_fts_step dbx rid icon w =
      (dbx\<lparr>icons_fts := icons_fts db @ [(rid, vn, vd, vs)]\<rparr>, Inr w)"
    if "icons_fts dbx = icons_fts db" for dbx w
    using that name descr stext an ad as fresh(2)
    by (simp add: insert_fts_step_def fts_params_def sql_insert_fts_def)
  have "try_insert_dict env dims db icon =
       (if embedding_valid dims icon then
          (if is_vector dims (dict_get icon ''embedding'' JNull) then
             (db1\<lparr>icon_embeddings :=
                     icon_embeddings db @ [(rid, dict_get icon ''embedding'' JNull)],
                   icons_fts := icons_fts db @ [(rid, vn, vd, vs)]\<rparr>,
              Inr None)
           else (db1, Inl VectorError))
        else if console env name then
          (db1\<lparr>icons_fts := icons_fts db @ [(rid, vn, vd, vs)]\<rparr>,
           Inr (Some (name, size)))
        else (db1, Inl UnicodeEncodeError))"
  proof (cases okb)
    case True
    show ?thesis
    proof (cases "is_vector dims (dict_get icon ''embedding'' JNull)")
      case vec: True
      have "sql_insert_embedding dims db1 rid (dict_get icon ''embedding'' JNull) =
              Inr (db1\<lparr>icon_embeddings :=
                     icon_embeddings db @ [(rid, dict_get icon ''embedding'' JNull)]\<rparr>)"
        using vec fresh(1) by (simp add: sql_insert_embedding_def db1)
      then show ?thesis
        using True vec valid m ins fts[of "db1\<lparr>icon_embeddings :=
                     icon_embeddings db @ [(rid, dict_get icon ''embedding'' JNull)]\<rparr>" None]
        by (simp add: try_insert_dict_def db1)
    next
      case novec: False
      then show ?thesis
        using True valid m ins by (simp add: try_insert_dict_def sql_insert_embedding_def)
    qed
  next
    case False
    show ?thesis
    proof (cases "console env name")
      case True
      then have "print_warning env icon = Inr (name, size)"
        using name size by (simp add: print_warning_def)
      then show ?thesis
        using False True valid m ins fts[of db1 "Some (name, size)"]
        by (simp add: try_insert_dict_def db1)
    next
      case noprint: False
      then have "print_warning env icon = Inl UnicodeEncodeError"
        using name size by (simp add: print_warning_def)
      then show ?thesis
        using False noprint valid m ins by (simp add: try_insert_dict_def)
    qed
  qed
  then have t: "try_insert env dims db (JDict icon) =
       (if embedding_valid dims icon then
          (if is_vector dims (dict_get icon ''embedding'' JNull) then
             (db1\<lparr>icon_embeddings :=
                     icon_embeddings db @ [(rid, dict_get icon ''embedding'' JNull)],
                   icons_fts := icons_fts db @ [(rid, vn, vd, vs)]\<rparr>,
              Inr None)
           else (db1, Inl VectorError))
        else if console env (dict_get icon ''name'' JNull) then
          (db1\<lparr>icons_fts := icons_fts db @ [(rid, vn, vd, vs)]\<rparr>,
           Inr (Some (dict_get icon ''name'' JNull, size)))
        else (db1, Inl UnicodeEncodeError))"
    by (simp add: name_get)
  have an': "adapt (Obj (dict_get icon ''name'' JNull)) = Inr vn"
    using an by (simp add: name_get)
  have nm: "dict_item icon ''name'' = Inr (dict_get icon ''name'' JNull)"
    using name by (simp add: name_get)
  show ?thesis
    apply (rule exI[of _ row], rule exI[of _ size], rule exI[of _ vn], rule exI[of _ vd],
           rule exI[of _ vs])
    using rid db1 emb cols(1) an' nm t by blast
qed

lemma try_insert_db_ok:
  assumes "db_ok db"
  shows "db_ok (fst (try_insert env dims db icon))"
proof (cases icon)
  case (JDict d)
  show ?thesis
  proof (cases "then_do (icon_params dims d) (sql_insert_icon env db)")
    case (Inl e)
    then show ?thesis using assms JDict by (simp add: try_insert_dict_def)
  next
    case (Inr p)
    obtain db1 rid where p: "p = (db1, rid)" by (cases p)
    from try_insert_success[OF assms Inr[unfolded p]] obtain row size n dd s where
      r: "rid = Suc (autoincrement db)" "row_id row = rid"
         "db1 = db\<lparr>icons := icons db @ [row], autoincrement := rid\<rparr>"
      and t: "try_insert env dims db (JDict d) =
         (if embedding_valid dims d then
            (if is_vector dims (dict_get d ''embedding'' JNull) then
               (db1\<lparr>icon_embeddings :=
                       icon_embeddings db @ [(rid, dict_get d ''embedding'' JNull)],
                     icons_fts := icons_fts db @ [(rid, n, dd, s)]\<rparr>,
                Inr None)
             else (db1, Inl VectorError))
          else if console env (dict_get d ''name'' JNull) then
            (db1\<lparr>icons_fts := icons_fts db @ [(rid, n, dd, s)]\<rparr>,
             Inr (Some (dict_get d ''name'' JNull, size)))
          else (db1, Inl UnicodeEncodeError))"
      by blast
    show ?thesis
      using assms unfolding JDict t
      by (auto simp: db_ok_def r list_all_iff intro: le_SucI)
  qed
qed (use assms in simp_all)

lemma insert_step_conn:
  "insert_step env dims st icon = Inr st' \<Longrightarrow>
     conn st' = fst (try_insert env dims (conn st) icon)"
  by (auto simp: insert_step_def then_do_Inr_iff split: prod.splits sum.splits)

lemma insert_loop_db_ok:
  "db_ok (conn st) \<Longrightarrow> insert_loop env dims st ics = Inr st' \<Longrightarrow> db_ok (conn st')"
proof (induction ics arbitrary: st)
  case Nil
  then show ?case by simp
next
  case (Cons icon ics)
  from Cons.prems(2) obtain s1 where s1: "insert_step env dims st icon = Inr s1"
    and l: "insert_loop env dims s1 ics = Inr st'"
    by (auto simp: then_do_Inr_iff)
  have "db_ok (conn s1)"
    using insert_step_conn[OF s1] try_insert_db_ok[OF Cons.prems(1)] by simp
  from Cons.IH[OF this l] show ?case .
qed

lemma insert_icons_loop:
  "insert_icons env dims db ics = insert_loop env dims (build_init db) ics"
  by (cases ics) (simp_all add: insert_icons_def)

lemma insert_loop_append:
  "insert_loop env dims st (xs @ ys) =
     then_do (insert_loop env dims st xs) (\<lambda>s. insert_loop env dims s ys)"
proof (induction xs arbitrary: st)
  case Nil
  then show ?case by simp
next
  case (Cons x xs)
  then show ?case by (cases "insert_step env dims st x") simp_all
qed

lemma insert_icons_snoc:
  "insert_icons env dims db (pre @ [icon]) =
     then_do (insert_icons env dims db pre) (\<lambda>s. insert_step env dims s icon)"
proof -
  have "insert_loop env dims s [icon] = insert_step env dims s icon" for s
    by (cases "insert_step env dims s icon") simp_all
  then show ?thesis
    by (simp add: insert_icons_loop insert_loop_append)
qed

lemma create_database_ok: "db_ok create_database"
  by (simp add: db_ok_def create_database_def)

lemma insert_icons_db_ok:
  "insert_icons env dims create_database pre = Inr st \<Longrightarrow> db_ok (conn st)"
  using insert_loop_db_ok[of "build_init create_database" env dims pre st]
  by (simp add: insert_icons_loop build_init_def create_database_ok)

lemma insert_step_counts:
  assumes "insert_step env dims st icon = Inr st'"
  shows "inserted_count st' + failed_count st' = Suc (inserted_count st + failed_count st) \<and>
         length (failures st') - failed_count st' = length (failures st) - failed_count st \<and>
         failed_count st' - length (failures st') = failed_count st - length (failures st)"
  using assms
  by (auto simp: insert_step_def then_do_Inr_iff split: prod.splits sum.splits)

lemma insert_loop_counts:
  "insert_loop env dims st ics = Inr st' \<Longrightarrow>
   inserted_count st' + failed_count st' = inserted_count st + failed_count st + length ics \<and>
   length (failures st') - failed_count st' = length (failures st) - failed_count st \<and>
   failed_count st' - length (failures st') = failed_count st - length (failures st)"
proof (induction ics arbitrary: st)
  case Nil
  then show ?case by simp
next
  case (Cons icon ics)
  from Cons.prems obtain s1 where s1: "insert_step env dims st icon = Inr s1"
    and l: "insert_loop env dims s1 ics = Inr st'"
    by (auto simp: then_do_Inr_iff)
  from Cons.IH[OF l] insert_step_counts[OF s1] show ?case by simp
qed

lemma insert_icons_counts:
  assumes "insert_icons env dims db ics = Inr st"
  shows "inserted_count st + failed_count st = length ics \<and>
         length (failures st) = failed_count st"
  using insert_loop_counts[of env dims "build_init db" ics st] assms
  by (simp add: insert_icons_loop build_init_def)

text \<open>
  Claim C1, as amended. Take any record reached during the assembly, after the elements
  \<open>pre\<close>, that is a dictionary whose INSERT into the primary table succeeds, with row
  identifier \<open>rid\<close>, and whose name the console can print. Its row is appended to
  \<^verbatim>\<open>icons\<close>. A row for it is appended to the vector index if and only if its
  embedding is present (truthy), has the configured length, and is what the
  \<^verbatim>\<open>vec0\<close> table takes, a list of numbers. When the embedding is missing or of
  another length, the embedding column of its row is NULL, the vector index is left as it
  was, and the full-text row is inserted and the record counted as inserted. The
  embedding column holds the embedding only when it is present with the configured length.
\<close>

theorem insert_icons_embedding_gate:
  assumes "insert_icons env dims create_database pre = Inr st"
      and "then_do (icon_params dims icon) (sql_insert_icon env (conn st)) = Inr (db1, rid)"
      and "console env (dict_get icon ''name'' JNull)"
  shows "\<exists>st' row n d s.
     insert_icons env dims create_database (pre @ [JDict icon]) = Inr st' \<and>
     icons (conn st') = icons (conn st) @ [row] \<and> row_id row = rid \<and>
     adapt (Obj (dict_get icon ''name'' JNull)) = Inr n \<and>
     name_col row = text_affinity env n \<and>
     embedding_col row =
       (if embedding_valid dims icon then SJson (dict_get icon ''embedding'' JNull) else SNull) \<and>
     icon_embeddings (conn st') =
       (if embedding_valid dims icon \<and> is_vector dims (dict_get icon ''embedding'' JNull)
        then icon_embeddings (conn st) @ [(rid, dict_get icon ''embedding'' JNull)]
        else icon_embeddings (conn st)) \<and>
     icons_fts (conn st') =
       (if embedding_valid dims icon \<and> \<not> is_vector dims (dict_get icon ''embedding'' JNull)
        then icons_fts (conn st)
        else icons_fts (conn st) @ [(rid, n, d, s)]) \<and>
     inserted_count st' =
       (if embedding_valid dims icon \<and> \<not> is_vector dims (dict_get icon ''embedding'' JNull)
        then inserted_count st else inserted_count st + 1)"
proof -
  have ok: "db_ok (conn st)"
    using assms(1) by (rule insert_icons_db_ok)
  from try_insert_success[OF ok assms(2)] obtain row size n d s where
    r: "rid = Suc (autoincrement (conn st))" "row_id row = rid"
       "db1 = (conn st)\<lparr>icons := icons (conn st) @ [row], autoincrement := rid\<rparr>"
       "embedding_col row =
         (if embedding_valid dims icon then SJson (dict_get icon ''embedding'' JNull) else SNull)"
       "adapt (Obj (dict_get icon ''name'' JNull)) = Inr n"
       "name_col row = text_affinity env n"
       "dict_item icon ''name'' = Inr (dict_get icon ''name'' JNull)"
    and t: "try_insert env dims (conn st) (JDict icon) =
       (if embedding_valid dims icon then
          (if is_vector dims (dict_get icon ''embedding'' JNull) then
             (db1\<lparr>icon_embeddings :=
                     icon_embeddings (conn st) @ [(rid, dict_get icon ''embedding'' JNull)],
                   icons_fts := icons_fts (conn st) @ [(rid, n, d, s)]\<rparr>,
              Inr None)
           else (db1, Inl VectorError))
        else if console env (dict_get icon ''name'' JNull) then
          (db1\<lparr>icons_fts := icons_fts (conn st) @ [(rid, n, d, s)]\<rparr>,
           Inr (Some (dict_get icon ''name'' JNull, size)))
        else (db1, Inl UnicodeEncodeError))"
    by blast
  have h: "handler_line env (JDict icon) = Inr (dict_get icon ''name'' JNull)"
    using r(7) assms(3)
    by (auto simp: dict_item_def dict_get_def split: option.splits)
  define st' where "st' =
    (if embedding_valid dims icon \<and> \<not> is_vector dims (dict_get icon ''embedding'' JNull)
     then st\<lparr>conn := db1, failed_count := failed_count st + 1,
             failures := failures st @ [(dict_get icon ''name'' JNull, VectorError)]\<rparr>
     else st\<lparr>conn := fst (try_insert env dims (conn st) (JDict icon)),
             inserted_count := inserted_count st + 1,
             warnings := warnings st @
               (if embedding_valid dims icon then []
                else [(dict_get icon ''name'' JNull, size)])\<rparr>)"
  have step: "insert_step env dims st (JDict icon) = Inr st'"
    unfolding insert_step_def t st'_def using h assms(3) by simp
  have run: "insert_icons env dims create_database (pre @ [JDict icon]) = Inr st'"
    by (simp add: insert_icons_snoc assms(1) step)
  have "icons (conn st') = icons (conn st) @ [row]"
    unfolding st'_def t using assms(3) by (simp add: r(3))
  moreover have "icon_embeddings (conn st') =
       (if embedding_valid dims icon \<and> is_vector dims (dict_get icon ''embedding'' JNull)
        then icon_embeddings (conn st) @ [(rid, dict_get icon ''embedding'' JNull)]
        else icon_embeddings (conn st))"
    unfolding st'_def t using assms(3) by (simp add: r(3))
  moreover have "icons_fts (conn st') =
       (if embedding_valid dims icon \<and> \<not> is_vector dims (dict_get icon ''embedding'' JNull)
        then icons_fts (conn st)
        else icons_fts (conn st) @ [(rid, n, d, s)])"
    unfolding st'_def t using assms(3) by (simp add: r(3))
  moreover have "inserted_count st' =
       (if embedding_valid dims icon \<and> \<not> is_vector dims (dict_get icon ''embedding'' JNull)
        then inserted_count st else inserted_count st + 1)"
    unfolding st'_def by simp
  ultimately show ?thesis using run r(2,4,5,6) by blast
qed

text \<open>
  When the INSERT into the primary table raises, or the parameters cannot be evaluated,
  the record leaves no row in any table; it is counted as failed when the console can
  print its name.
\<close>

lemma insert_step_primary_failure:
  assumes "then_do (icon_params dims icon) (sql_insert_icon env (conn st)) = Inl e"
      and "console env (dict_get icon ''name'' (JStr ''unknown''))"
  shows "insert_step env dims st (JDict icon) =
           Inr (st\<lparr>failed_count := failed_count st + 1,
                   failures := failures st @ [(dict_get icon ''name'' (JStr ''unknown''), e)]\<rparr>)"
  using assms(2) try_insert_failure[OF assms(1)] by (simp add: insert_step_def)

lemmas assembler_defs =
  insert_icons_def build_init_def create_database_def insert_step_def try_insert_dict_def
  insert_fts_step_def icon_params_def fts_params_def source_field_def warned_size_def
  print_warning_def embedding_matches_def sql_insert_icon_def sql_insert_embedding_def
  sql_insert_fts_def dict_item_def dict_get_def icon_record_def Let_def env_utf8_def

text \<open>
  The theorem at a concrete input: with two dimensions configured, the record \<open>y\<close>
  with an embedding of length one follows the record \<open>x\<close> into the database.
\<close>

theorem insert_icons_embedding_gate_witness:
  "\<not> embedding_valid 2 (icon_record ''y'' [JNum 5]) \<and>
   console env_utf8 (dict_get (icon_record ''y'' [JNum 5]) ''name'' JNull) \<and>
   (\<exists>st db1 st' row d s.
     insert_icons env_utf8 2 create_database [JDict (icon_record ''x'' [JNum 1, JNum 2])] =
       Inr st \<and>
     then_do (icon_params 2 (icon_record ''y'' [JNum 5])) (sql_insert_icon env_utf8 (conn st)) =
       Inr (db1, 2) \<and>
     insert_icons env_utf8 2 create_database
       ([JDict (icon_record ''x'' [JNum 1, JNum 2])] @ [JDict (icon_record ''y'' [JNum 5])]) =
       Inr st' \<and>
     icons (conn st') = icons (conn st) @ [row] \<and>
     row_id row = 2 \<and> name_col row = SText ''y'' \<and> embedding_col row = SNull \<and>
     icon_embeddings (conn st') = [(1, JList [JNum 1, JNum 2])] \<and>
     icons_fts (conn st') = icons_fts (conn st) @ [(2, SText ''y'', d, s)])"
proof -
  have nv: "\<not> embedding_valid 2 (icon_record ''y'' [JNum 5])"
    by (simp add: assembler_defs embedding_valid_def)
  have c: "console env_utf8 (dict_get (icon_record ''y'' [JNum 5]) ''name'' JNull)"
    by (simp add: env_utf8_def)
  have "\<exists>st. insert_icons env_utf8 2 create_database
               [JDict (icon_record ''x'' [JNum 1, JNum 2])] = Inr st \<and>
          (\<exists>db1. then_do (icon_params 2 (icon_record ''y'' [JNum 5]))
                   (sql_insert_icon env_utf8 (conn st)) = Inr (db1, 2)) \<and>
          icon_embeddings (conn st) = [(1, JList [JNum 1, JNum 2])]"
    by (simp add: assembler_defs)
  then obtain st db1 where
    st: "insert_icons env_utf8 2 create_database
           [JDict (icon_record ''x'' [JNum 1, JNum 2])] = Inr st"
    and h: "then_do (icon_params 2 (icon_record ''y'' [JNum 5]))
              (sql_insert_icon env_utf8 (conn st)) = Inr (db1, 2)"
    and e: "icon_embeddings (conn st) = [(1, JList [JNum 1, JNum 2])]"
    by blast
  have n: "adapt (Obj (dict_get (icon_record ''y'' [JNum 5]) ''name'' JNull)) = Inr (SText ''y'')"
    by (simp add: dict_get_def icon_record_def)
  from insert_icons_embedding_gate[OF st h c] nv c st h e n
  show ?thesis by auto
qed

text \<open>
  The claim as first stated, for every icon record, fails where an INSERT raises. A second
  record named \<open>x\<close> with an embedding of the configured length violates the UNIQUE
  constraint: it gets no row in the vector index (nor in any other table). A record whose
  embedding has the configured length and holds strings gets its primary-table row, with
  the embedding stored in it; the vector table refuses it, and the exception skips the
  full-text row.
\<close>

theorem insert_icons_embedding_gate_counterexample:
  "embedding_valid 2 (icon_record ''x'' [JNum 3, JNum 4]) \<and>
   (\<exists>st. insert_icons env_utf8 2 create_database
            [JDict (icon_record ''x'' [JNum 1, JNum 2]),
             JDict (icon_record ''x'' [JNum 3, JNum 4])] = Inr st \<and>
      icon_embeddings (conn st) = [(1, JList [JNum 1, JNum 2])] \<and>
      map embedding_col (icons (conn st)) = [SJson (JList [JNum 1, JNum 2])] \<and>
      failures st = [(JStr ''x'', IntegrityError)]) \<and>
   embedding_valid 2 (icon_record ''t'' [JStr ''a'', JStr ''b'']) \<and>
   (\<exists>st. insert_icons env_utf8 2 create_database
            [JDict (icon_record ''t'' [JStr ''a'', JStr ''b''])] = Inr st \<and>
      icon_embeddings (conn st) = [] \<and>
      map embedding_col (icons (conn st)) = [SJson (JList [JStr ''a'', JStr ''b''])] \<and>
      icons_fts (conn st) = [])"
  by (simp add: assembler_defs embedding_valid_def)

text \<open>
  The constraints are checked on the values as the TEXT columns store them. The name 123
  is stored as the text of the number, so a second record named \<open>''123''\<close> violates the
  UNIQUE constraint; the names 1 and 1.0 are stored as two different texts; and a width
  beyond 64 bits raises an OverflowError before anything is inserted.
\<close>

lemma nat_text_123: "int_text 123 = ''123''" "int_text 1 = ''1''"
  by (simp_all add: int_text_def nat_text.simps)

lemma integer_name_then_text_name:
  "\<exists>st. insert_icons env_utf8 2 create_database
           [JDict (icon_with_name (JInt 123)), JDict (icon_with_name (JStr ''123''))] = Inr st \<and>
         map name_col (icons (conn st)) = [SText ''123''] \<and>
         failures st = [(JStr ''123'', IntegrityError)]"
  by (simp add: assembler_defs icon_with_name_def nat_text_123)

lemma integer_name_then_float_name:
  assumes "real_text env 1 = ''1.0''"
  shows "\<exists>st. insert_icons env 2 create_database
           [JDict (icon_with_name (JInt 1)), JDict (icon_with_name (JNum 1))] = Inr st \<and>
         map name_col (icons (conn st)) = [SText ''1'', SText ''1.0''] \<and>
         failed_count st = 0"
  using assms
  by (simp add: insert_icons_def build_init_def create_database_def insert_step_def
        try_insert_dict_def insert_fts_step_def icon_params_def fts_params_def
        source_field_def embedding_matches_def sql_insert_icon_def sql_insert_embedding_def
        sql_insert_fts_def dict_item_def dict_get_def Let_def icon_with_name_def nat_text_123)

lemma width_beyond_64_bits:
  "\<exists>st. insert_icons env_utf8 2 create_database [JDict icon_wide] = Inr st \<and>
         icons (conn st) = [] \<and> failures st = [(JStr ''w'', OverflowError)]"
  by (simp add: assembler_defs icon_wide_def)

text \<open>
  Claim C8, at an input where the code departs from it. The \<^verbatim>\<open>except\<close> handler
  evaluates \<^verbatim>\<open>icon.get('name', 'unknown')\<close> to print the failure. On an element of
  \<^verbatim>\<open>processed_icons\<close> that is not a dictionary, here a string between the records
  \<open>x\<close> and \<open>y\<close>, the \<^verbatim>\<open>try\<close> body raises an AttributeError at its first
  statement, and the handler raises an AttributeError in its turn. This exception leaves the
  loop: the failure is neither printed nor counted, the record \<open>y\<close> that follows is never
  inserted, and nothing is committed. Without the string both records are inserted.
\<close>

theorem insert_icons_handler_aborts:
  "insert_icons env_utf8 2 create_database
     [JDict (icon_record ''x'' [JNum 1, JNum 2]), JStr ''not a record'',
      JDict (icon_record ''y'' [JNum 5, JNum 6])] = Inl AttributeError \<and>
   (\<exists>st. insert_icons env_utf8 2 create_database
            [JDict (icon_record ''x'' [JNum 1, JNum 2]),
             JDict (icon_record ''y'' [JNum 5, JNum 6])] = Inr st \<and>
         inserted_count st = 2 \<and> failed_count st = 0)"
  by (simp add: insert_icons_def build_init_def create_database_def insert_step_def
        try_insert_dict_def insert_fts_step_def icon_params_def fts_params_def
        source_field_def embedding_matches_def sql_insert_icon_def sql_insert_embedding_def
        sql_insert_fts_def dict_item_def dict_get_def Let_def icon_record_def env_utf8_def)

text \<open>
  The handler raises as well when the \<^verbatim>\<open>try\<close> body has failed on a dictionary and the
  console cannot print its name: the UnicodeEncodeError of \<^verbatim>\<open>print\<close> leaves the loop.
\<close>

lemma insert_step_handler_raises:
  assumes "try_insert env dims (conn st) (JDict icon) = (db', Inl e)"
      and "\<not> console env (dict_get icon ''name'' (JStr ''unknown''))"
  shows "insert_step env dims st (JDict icon) = Inl UnicodeEncodeError"
  using assms by (simp add: insert_step_def)

lemma insert_step_not_a_record:
  assumes "\<forall>d. icon \<noteq> JDict d"
  shows "insert_step env dims st icon = Inl AttributeError"
  using assms by (cases icon) (simp_all add: insert_step_def)

text \<open>
  What the handler does achieve: when the element is a dictionary and the console can
  print its name, the exception of the \<^verbatim>\<open>try\<close> body is caught, the failure is
  printed with the name and counted, and the loop goes on with the elements that follow.
  In a run that ends without an exception leaving the handler, every element is counted
  once, as inserted or as failed (lemma \<open>insert_icons_counts\<close>).
\<close>

lemma insert_step_failure_caught:
  assumes "try_insert env dims (conn st) (JDict icon) = (db', Inl e)"
      and "console env (dict_get icon ''name'' (JStr ''unknown''))"
  shows "insert_step env dims st (JDict icon) =
           Inr (st\<lparr>conn := db', failed_count := failed_count st + 1,
                   failures := failures st @ [(dict_get icon ''name'' (JStr ''unknown''), e)]\<rparr>)"
  using assms by (simp add: insert_step_def)

lemma insert_loop_after_failure:
  assumes "insert_icons env dims db pre = Inr st"
      and "try_insert env dims (conn st) (JDict icon) = (db', Inl e)"
      and "console env (dict_get icon ''name'' (JStr ''unknown''))"
  shows "insert_icons env dims db (pre @ JDict icon # rest) =
           insert_loop env dims
             (st\<lparr>conn := db', failed_count := failed_count st + 1,
                 failures := failures st @ [(dict_get icon ''name'' (JStr ''unknown''), e)]\<rparr>)
             rest"
  using assms(1) insert_step_failure_caught[OF assms(2,3)]
  by (simp add: insert_icons_loop insert_loop_append)

section \<open>Properties of the batch orchestrator\<close>

text \<open>
  Claim C3, as amended. Two checkpoint writes of the same accumulated run result produce
  the same documents up to the value of their \<^verbatim>\<open>timestamp\<close> entry, which is the
  reading of the clock at the write: nothing else in the written form varies, neither the
  order of the keys nor the order of the records. The files written are identical exactly
  when the readings of the clock are.
\<close>

theorem checkpoint_identical_up_to_timestamp:
  "map_option without_timestamp (output_file (save_processed_data p now1 now2 files)) =
     map_option without_timestamp (output_file (save_processed_data p now1' now2' files')) \<and>
   map_option without_timestamp (error_file (save_processed_data p now1 now2 files)) =
     map_option without_timestamp (error_file (save_processed_data p now1' now2' files)) \<and>
   (output_file (save_processed_data p now1 now2 files) =
      output_file (save_processed_data p now1' now2' files') \<longleftrightarrow> now1 = now1') \<and>
   (save_processed_data p now1 now2 files = save_processed_data p now1' now2' files \<longleftrightarrow>
      now1 = now1' \<and> (error_data p = [] \<or> now2 = now2'))"
  by (cases files; cases files') (auto simp: save_processed_data_def Let_def)

text \<open>
  The claim as first stated fails: the same (empty) run result written at clock readings
  1 and 2 gives two different files.
\<close>

theorem checkpoint_identical_counterexample:
  "save_processed_data \<lparr>processed_data = [], error_data = []\<rparr> 1 1
       \<lparr>output_file = None, error_file = None\<rparr> \<noteq>
   save_processed_data \<lparr>processed_data = [], error_data = []\<rparr> 2 2
       \<lparr>output_file = None, error_file = None\<rparr>"
  by (simp add: save_processed_data_def)

lemma run_task_result:
  "snd (run_task p item) = Returned (fst (process_icon (fst item) (snd item)))"
  by (simp add: run_task_def split: prod.splits)

lemma run_tasks_slots:
  "length (snd (run_tasks p batch order slots)) = length slots \<and>
   (\<forall>j < length slots.
      snd (run_tasks p batch order slots) ! j =
        (if j \<in> set order \<and> j < length batch
         then Some (Returned (fst (process_icon (fst (batch ! j)) (snd (batch ! j)))))
         else slots ! j))"
proof (induction order arbitrary: p slots)
  case Nil
  then show ?case by simp
next
  case (Cons i order)
  show ?case
  proof (cases "i < length batch")
    case False
    then show ?thesis using Cons.IH[of p slots] by auto
  next
    case True
    obtain p' r where pr: "run_task p (batch ! i) = (p', r)" by (cases "run_task p (batch ! i)")
    then have r: "r = Returned (fst (process_icon (fst (batch ! i)) (snd (batch ! i))))"
      using run_task_result[of p "batch ! i"] by simp
    from True pr have step: "run_tasks p batch (i # order) slots =
        run_tasks p' batch order (slots[i := Some r])"
      by simp
    show ?thesis
      unfolding step using Cons.IH[of p' "slots[i := Some r]"] r True
      by (auto simp: nth_list_update)
  qed
qed

lemma those_map_Some: "those (map (\<lambda>x. Some (f x)) xs) = Some (map f xs)"
  by (induction xs) simp_all

lemma gather_results:
  assumes "set order = {..<length batch}"
  shows "\<exists>p'. gather p batch order =
     Some (p', map (\<lambda>item. Returned (fst (process_icon (fst item) (snd item)))) batch)"
proof -
  obtain p' slots where rt: "run_tasks p batch order (replicate (length batch) None) = (p', slots)"
    by (cases "run_tasks p batch order (replicate (length batch) None)")
  from run_tasks_slots[of p batch order "replicate (length batch) None"] rt assms
  have len: "length slots = length batch"
    and nth: "\<forall>j < length batch. slots ! j =
        Some (Returned (fst (process_icon (fst (batch ! j)) (snd (batch ! j)))))"
    by auto
  have "slots = map (\<lambda>item. Some (Returned (fst (process_icon (fst item) (snd item))))) batch"
    using len nth by (auto intro: nth_equalityI)
  then show ?thesis
    by (simp add: gather_def rt those_map_Some)
qed

lemma collect_results_returned:
  "collect_results pg (map (\<lambda>item. Returned (f item)) batch) =
     pg\<lparr>proc := (proc pg)\<lparr>processed_data := processed_data (proc pg) @ List.map_filter f batch\<rparr>,
        processed_count := processed_count pg + length (List.map_filter f batch),
        batch_failed_count := batch_failed_count pg + (length batch - length (List.map_filter f batch))\<rparr>"
proof (induction batch arbitrary: pg)
  case Nil
  then show ?case by (simp add: map_filter_simps)
next
  case (Cons item batch)
  have le: "length (List.map_filter f batch) \<le> length batch"
    by (simp add: map_filter_def)
  show ?case
  proof (cases "f item")
    case None
    then show ?thesis using Cons.IH le by (simp add: map_filter_simps Suc_diff_le)
  next
    case (Some r)
    then show ?thesis using Cons.IH le by (simp add: map_filter_simps)
  qed
qed

lemma process_icon_source:
  assumes "fst (process_icon icon_data env) = Some r"
  shows "dict_get r ''source_data'' JNull = JDict icon_data"
  using assms
  by (auto simp: process_icon_def Let_def dict_get_def split: option.splits if_splits)

lemma map_filter_corresponds:
  assumes "\<And>x r. f x = Some r \<Longrightarrow> g r = h x"
  shows "map g (List.map_filter f xs) = map h (filter (\<lambda>x. f x \<noteq> None) xs)"
  using assms by (induction xs) (auto simp: map_filter_simps split: option.splits)

lemma run_tasks_processed_data:
  "processed_data (fst (run_tasks p batch order slots)) = processed_data p"
proof (induction order arbitrary: p slots)
  case Nil
  then show ?case by simp
next
  case (Cons i order)
  then show ?case
    by (auto simp: run_task_def split: prod.splits)
qed

lemma gather_processed_data:
  assumes "gather p batch order = Some (p', results)"
  shows "processed_data p' = processed_data p"
  using assms run_tasks_processed_data[of p batch order "replicate (length batch) None"]
  by (auto simp: gather_def split: prod.splits option.splits)

text \<open>
  Claim C4. Let the tasks of a batch end in any order (\<open>order\<close> is any arrangement of
  the positions of the batch). The batch then appends to the processed records exactly the
  records of its items that succeeded, in the order of the items in the input: the result
  does not depend on \<open>order\<close>. Each record appended carries its item as
  \<^verbatim>\<open>source_data\<close>, so the items of the records appended are the successful items of
  the batch, in input order.
\<close>

theorem batch_output_in_input_order:
  assumes "distinct order" and "set order = {..<length batch}"
  shows "\<exists>pg'. process_batch pg batch order = Some pg' \<and>
     processed_data (proc pg') = processed_data (proc pg) @ batch_successes batch \<and>
     map (\<lambda>r. dict_get r ''source_data'' JNull) (batch_successes batch) =
       map (\<lambda>item. JDict (fst item))
         (filter (\<lambda>item. fst (process_icon (fst item) (snd item)) \<noteq> None) batch) \<and>
     processed_count pg' = processed_count pg + length (batch_successes batch) \<and>
     processed_count pg' + batch_failed_count pg' =
       processed_count pg + batch_failed_count pg + length batch"
proof -
  let ?f = "\<lambda>item. fst (process_icon (fst item) (snd item))"
  from gather_results[OF assms(2), of "proc pg"] obtain p' where
    g: "gather (proc pg) batch order = Some (p', map (\<lambda>item. Returned (?f item)) batch)"
    by blast
  have len: "length (List.map_filter ?f batch) \<le> length batch"
    by (simp add: map_filter_def)
  have src: "map (\<lambda>r. dict_get r ''source_data'' JNull) (List.map_filter ?f batch) =
       map (\<lambda>item. JDict (fst item)) (filter (\<lambda>item. ?f item \<noteq> None) batch)"
    by (rule map_filter_corresponds) (rule process_icon_source)
  show ?thesis
    using len src gather_processed_data[OF g]
    by (simp add: process_batch_def g collect_results_returned batch_successes_def)
qed

lemmas batch_defs =
  process_batch_def gather_def run_task_def process_icon_def Let_def dict_get_def
  error_entry_def absent_def replace_underscores_def batch_successes_def map_filter_simps
  item_a_def item_b_def item_no_path_def env_ok_def progress_init_def

theorem batch_output_in_input_order_witness:
  "distinct [2, 0, Suc 0] \<and> set [2, 0, Suc 0] = {..<length [item_a, item_no_path, item_b]} \<and>
   (\<exists>pg'. process_batch progress_init [item_a, item_no_path, item_b] [2, 0, Suc 0] = Some pg' \<and>
      map (\<lambda>r. dict_get r ''name'' JNull) (processed_data (proc pg')) = [JStr ''a'', JStr ''b''] \<and>
      map (\<lambda>r. dict_get r ''source_data'' JNull) (processed_data (proc pg')) =
        [JDict (fst item_a), JDict (fst item_b)] \<and>
      processed_count pg' = 2 \<and> batch_failed_count pg' = 1)"
proof -
  have d: "distinct [2, 0, Suc 0]" by simp
  have s: "set [2, 0, Suc 0] = {..<length [item_a, item_no_path, item_b]}" by auto
  have b: "map (\<lambda>r. dict_get r ''name'' JNull) (batch_successes [item_a, item_no_path, item_b]) =
             [JStr ''a'', JStr ''b'']"
    by (simp add: batch_defs)
  have e: "processed_data (proc progress_init) = [] \<and> processed_count progress_init = 0 \<and>
           batch_failed_count progress_init = 0"
    by (simp add: progress_init_def)
  have f: "filter (\<lambda>item. fst (process_icon (fst item) (snd item)) \<noteq> None)
             [item_a, item_no_path, item_b] = [item_a, item_b]"
    by (simp add: batch_defs)
  from batch_output_in_input_order[OF d s, of progress_init] b e f d s
  show ?thesis by auto
qed

section \<open>Properties of the embedding client\<close>








lemmas client_defs =
  read_responses_def map_filter_simps tagged_def payload_def dict_item_def dict_get_def
  reply_1_def reply_2_def reply_3_error_def server_output_def




text \<open>
  Claim C7, at an input where the code departs from it. The wait of
  \<^verbatim>\<open>embed_single_process.py\<close> is \<^verbatim>\<open>while True: response_queue.get()\<close> with no
  time limit (the one of \<^verbatim>\<open>embed_db_missing.py\<close> gives up after 30 seconds). When
  the subprocess never answers, or answers other requests only, the call never returns.
\<close>

theorem single_process_wait_unbounded:
  "generate_embedding 1 (read_responses []) = None \<and>
   generate_embedding 1 (read_responses [Noise, Parsed reply_2, Noise]) = None"
  by (simp add: client_defs)

section \<open>Properties of the backfill pass\<close>

lemma only_embedding_backfilled_id:
  "only_embedding_backfilled r r' \<Longrightarrow> row_id r' = row_id r"
  by (auto simp: only_embedding_backfilled_def)

lemma only_embedding_backfilled_update:
  assumes "only_embedding_backfilled r r'" and "needs_embedding r"
  shows "only_embedding_backfilled r (r'\<lparr>embedding_col := v\<rparr>)"
  using assms by (auto simp: only_embedding_backfilled_def)

lemma update_keeps_frame:
  assumes frame: "list_all2 only_embedding_backfilled rows rows1"
      and dist: "distinct (map row_id rows)"
      and sel: "r \<in> set rows" "needs_embedding r" "row_id r = icon_id"
  shows "list_all2 only_embedding_backfilled rows
           (map (\<lambda>r. if row_id r = icon_id then r\<lparr>embedding_col := v\<rparr> else r) rows1)"
proof -
  have "only_embedding_backfilled a (if row_id b = icon_id then b\<lparr>embedding_col := v\<rparr> else b)"
    if ab: "only_embedding_backfilled a b" and a: "a \<in> set rows" for a b
  proof (cases "row_id b = icon_id")
    case False
    then show ?thesis using ab by simp
  next
    case True
    then have "row_id a = row_id r"
      using only_embedding_backfilled_id[OF ab] sel(3) by simp
    with dist a sel(1) have "a = r"
      by (meson distinct_map inj_onD)
    then show ?thesis
      using True only_embedding_backfilled_update[OF ab] sel(2) by simp
  qed
  then show ?thesis
    using frame by (auto simp: list_all2_conv_all_nth)
qed

lemma backfill_loop_frame:
  assumes "backfill_loop embed_call i db1 c f pending = Inr (db', c', f')"
      and "list_all2 only_embedding_backfilled (icons db) (icons db1)"
      and "distinct (map row_id (icons db))"
      and "set pending \<subseteq> set (missing_icons db)"
      and "same_but_icons db db1"
  shows "list_all2 only_embedding_backfilled (icons db) (icons db') \<and> same_but_icons db db'"
  using assms
proof (induction pending arbitrary: i db1 c f)
  case Nil
  then show ?case by simp
next
  case (Cons p pending)
  obtain icon_id name stext where p: "p = (icon_id, name, stext)" by (cases p)
  from Cons.prems(1) p obtain embedding where e: "embed_call i stext = Inr embedding"
    by (auto split: sum.splits)
  from Cons.prems(4) p obtain r where r: "r \<in> set (icons db)" "needs_embedding r" "row_id r = icon_id"
    by (auto simp: missing_icons_def)
  have sub: "set pending \<subseteq> set (missing_icons db)" using Cons.prems(4) by simp
  show ?case
  proof (cases "truthy embedding")
    case True
    let ?db2 = "sql_update_embedding db1 embedding icon_id"
    from Cons.prems(1) p e True have
      l: "backfill_loop embed_call (i + 1) ?db2 (c + 1) f pending = Inr (db', c', f')"
      by (auto split: sum.splits)
    have fr: "list_all2 only_embedding_backfilled (icons db) (icons ?db2)"
      using update_keeps_frame[OF Cons.prems(2) Cons.prems(3) r]
      by (simp add: sql_update_embedding_def)
    have sb: "same_but_icons db ?db2"
      using Cons.prems(5) by (simp add: same_but_icons_def sql_update_embedding_def)
    from Cons.IH[OF l fr Cons.prems(3) sub sb] show ?thesis .
  next
    case False
    from Cons.prems(1) p e False have
      l: "backfill_loop embed_call (i + 1) db1 c (f + 1) pending = Inr (db', c', f')"
      by simp
    from Cons.IH[OF l Cons.prems(2) Cons.prems(3) sub Cons.prems(5)] show ?thesis .
  qed
qed

lemma only_embedding_backfilled_refl: "list_all2 only_embedding_backfilled rows rows"
  by (simp add: list_all2_refl only_embedding_backfilled_def)

text \<open>
  Claim C9. Whatever the embedding client answers, and whether or not the pass is cut
  short by an exception, the backfill leaves every row of \<^verbatim>\<open>icons\<close> either as it
  was or changed in its embedding column only, and a changed row is one whose embedding
  was NULL or the empty text when the pass selected it; the rows keep their number and
  order, and the vector index, the full-text index and the row counter are left as they
  were. Row identifiers are distinct, as the primary key of the table has them.
\<close>

theorem backfill_changes_only_missing_embeddings:
  assumes "distinct (map row_id (icons db))"
  shows "list_all2 only_embedding_backfilled (icons db) (icons (backfill_main embed_call db)) \<and>
         icon_embeddings (backfill_main embed_call db) = icon_embeddings db \<and>
         icons_fts (backfill_main embed_call db) = icons_fts db \<and>
         autoincrement (backfill_main embed_call db) = autoincrement db"
proof (cases "backfill_loop embed_call 1 db 0 0 (missing_icons db)")
  case (Inl e)
  then show ?thesis
    by (simp add: backfill_main_def Let_def only_embedding_backfilled_refl)
next
  case (Inr res)
  obtain db' c' f' where res: "res = (db', c', f')" by (cases res)
  have "same_but_icons db db" by (simp add: same_but_icons_def)
  from backfill_loop_frame[OF Inr[unfolded res] only_embedding_backfilled_refl assms _ this]
  have "list_all2 only_embedding_backfilled (icons db) (icons db') \<and> same_but_icons db db'"
    by simp
  then show ?thesis
    using Inr res
    by (auto simp: backfill_main_def Let_def same_but_icons_def only_embedding_backfilled_refl)
qed

text \<open>
  The theorem at a concrete input: in the database \<open>db_two\<close> the client answers every
  request with an embedding; the row of \<open>y\<close> receives it, the row of \<open>x\<close> keeps its own.
\<close>

theorem backfill_changes_only_missing_embeddings_witness:
  "distinct (map row_id (icons db_two)) \<and>
   map embedding_col (icons db_two) = [SJson (JList [JNum 1, JNum 2]), SNull] \<and>
   map embedding_col (icons (backfill_main (\<lambda>i t. Inr (JList [JNum 7, JNum 8])) db_two)) =
     [SJson (JList [JNum 1, JNum 2]), SJson (JList [JNum 7, JNum 8])] \<and>
   list_all2 only_embedding_backfilled (icons db_two)
     (icons (backfill_main (\<lambda>i t. Inr (JList [JNum 7, JNum 8])) db_two)) \<and>
   icon_embeddings (backfill_main (\<lambda>i t. Inr (JList [JNum 7, JNum 8])) db_two) =
     [(1, JList [JNum 1, JNum 2])]"
proof -
  have rows: "map (\<lambda>r. (row_id r, embedding_col r)) (icons db_two) =
          [(1, SJson (JList [JNum 1, JNum 2])), (2, SNull)] \<and>
        icon_embeddings db_two = [(1, JList [JNum 1, JNum 2])] \<and> length (icons db_two) = 2"
    by (simp add: db_two_def assembler_defs)
  then obtain r1 r2 where r: "icons db_two = [r1, r2]" "row_id r1 = 1" "row_id r2 = 2"
      "embedding_col r1 = SJson (JList [JNum 1, JNum 2])" "embedding_col r2 = SNull"
    by (auto simp: length_Suc_conv numeral_2_eq_2)
  have d: "distinct (map row_id (icons db_two))"
    using r by simp
  have b: "map embedding_col (icons (backfill_main (\<lambda>i t. Inr (JList [JNum 7, JNum 8])) db_two)) =
     [SJson (JList [JNum 1, JNum 2]), SJson (JList [JNum 7, JNum 8])]"
    using r by (simp add: backfill_main_def missing_icons_def needs_embedding_def
        sql_update_embedding_def Let_def)
  from backfill_changes_only_missing_embeddings[OF d, of "\<lambda>i t. Inr (JList [JNum 7, JNum 8])"]
       d b rows r
  show ?thesis by simp
qed

end
